theory Spec2Isabelle
  imports
    Complex_Main
    "HOL-Library.Char_ord"
    "HOL-Library.List_Lexorder"
    "HOL-Library.Product_Lexorder"
begin

section \<open>Data model of the Tendrl JavaScript client\<close>

text \<open>
  The development embeds \<^verbatim>\<open>TendrlClient\<close> (src/utils/TendrlClient.js) and the
  \<^verbatim>\<open>IndexedDBStorage\<close> adapter (src/utils/IndexedDBStorage.js).

  Conventions of the embedding:
  \<^item> array lengths, \<^verbatim>\<open>maxBatchSize\<close> and epoch milliseconds (\<^verbatim>\<open>Date.now()\<close>) are natural
    numbers; \<^verbatim>\<open>maxQueueSize\<close>, which the constructor stores as given, the intervals and the
    heartbeat measurements are exact rationals (no NaN, no rounding);
  \<^item> a field that may be absent (\<^verbatim>\<open>undefined\<close>) or \<^verbatim>\<open>null\<close> is an \<open>option\<close>;
  \<^item> everything the environment decides (the clock, \<^verbatim>\<open>Math.random\<close>, the outcome of a
    \<^verbatim>\<open>fetch\<close>, whether an IndexedDB write succeeds) is an explicit argument;
  \<^item> every HTTP request a function issues is returned in a trace of \<open>request\<close>s;
  \<^item> a \<^verbatim>\<open>throw\<close> is the \<open>Inl\<close> branch of a sum;
  \<^item> debug logging has no effect on the state and is left out;
  \<^item> an \<^verbatim>\<open>async\<close> function is modelled as running to completion (no interleaving with
    other callers at its \<^verbatim>\<open>await\<close> points).
\<close>

subsection \<open>JavaScript values\<close>

datatype json =
    JNull
  | JBool bool
  | JNum rat
  | JStr string
  | JArr "json list"
  | JObj "(string \<times> json) list"

text \<open>The argument of \<^verbatim>\<open>publish\<close>: any JavaScript value; objects and arrays carry JSON data.\<close>

datatype js_value =
    VUndefined
  | VNull
  | VBoolean bool
  | VNumber rat
  | VString string
  | VObject "(string \<times> json) list"
  | VArray "json list"
  | VFunction

fun typeof :: "js_value \<Rightarrow> string" where
  "typeof VUndefined = ''undefined''"
| "typeof VNull = ''object''"
| "typeof (VBoolean _) = ''boolean''"
| "typeof (VNumber _) = ''number''"
| "typeof (VString _) = ''string''"
| "typeof (VObject _) = ''object''"
| "typeof (VArray _) = ''object''"
| "typeof VFunction = ''function''"

text \<open>
  \<^verbatim>\<open>JSON.stringify\<close> and \<^verbatim>\<open>JSON.parse\<close> belong to the JavaScript runtime. A JSON
  text is represented by the value it denotes, or it is malformed; parsing malformed text
  throws (\<open>None\<close>).
\<close>

datatype 'a json_text = Stringified 'a | Malformed string

definition JSON_stringify :: "'a \<Rightarrow> 'a json_text" where
  "JSON_stringify v = Stringified v"

fun JSON_parse :: "'a json_text \<Rightarrow> 'a option" where
  "JSON_parse (Stringified v) = Some v"
| "JSON_parse (Malformed _) = None"

text \<open>
  \<^verbatim>\<open>new Date().toISOString()\<close> at epoch millisecond \<open>t\<close> is \<open>ISOString t\<close>; the heartbeat
  strips the milliseconds (\<^verbatim>\<open>.replace(/\.\d{3}Z$/, 'Z')\<close>), which leaves the second.
\<close>

datatype timestamp = ISOString nat | ISOSeconds nat

subsection \<open>Messages\<close>

record context_obj =
  tags :: "string list option"
  wait :: "bool option"

record message =
  msg_type :: string
  data :: json
  timestamp :: timestamp
  msg_context :: "context_obj option"
  dest :: "string option"

subsection \<open>Offline store (IndexedDBStorage)\<close>

text \<open>
  The key \<^verbatim>\<open>offline_${Date.now()}_${random}\<close>: the two holes of the template, and the
  string they make. IndexedDB orders string keys by their characters.
\<close>

datatype msg_id = OfflineId nat string

function decimal :: "nat \<Rightarrow> string" where
  "decimal n =
     (if n < 10 then [char_of (48 + n)]
      else decimal (n div 10) @ [char_of (48 + n mod 10)])"
  by pat_completeness auto
termination
  by (relation "measure id") auto

declare decimal.simps [simp del]

fun key_text :: "msg_id \<Rightarrow> string" where
  "key_text (OfflineId t r) = ''offline_'' @ decimal t @ ''_'' @ r"

record offline_record =
  stored_id :: msg_id
  stored_data :: "json json_text"
  stored_tags :: "string list json_text option"
  expires_at :: nat

type_synonym offline_store = "offline_record list"

text \<open>
  \<^verbatim>\<open>store(msgId, data, tags, ttl)\<close>. The record it builds: the key, the JSON text of
  the data, the JSON text of the tags (an empty tag array is truthy in JavaScript, so only
  \<^verbatim>\<open>null\<close> is stored as \<^verbatim>\<open>null\<close>) and the expiry.
\<close>

definition stored_record ::
  "nat \<Rightarrow> msg_id \<Rightarrow> json \<Rightarrow> string list option \<Rightarrow> nat \<Rightarrow> offline_record" where
  "stored_record now msgId d tgs ttl =
     \<lparr> stored_id = msgId,
       stored_data = JSON_stringify d,
       stored_tags = (case tgs of None \<Rightarrow> None | Some ts \<Rightarrow> Some (JSON_stringify ts)),
       expires_at = now + ttl * 1000 \<rparr>"

text \<open>\<^verbatim>\<open>objectStore.put\<close> replaces the record under the same key.\<close>

definition storage_store ::
  "offline_store \<Rightarrow> nat \<Rightarrow> msg_id \<Rightarrow> json \<Rightarrow> string list option \<Rightarrow> nat \<Rightarrow> offline_store" where
  "storage_store st now msgId d tgs ttl =
     filter (\<lambda>r. stored_id r \<noteq> msgId) st @ [stored_record now msgId d tgs ttl]"

text \<open>
  \<^verbatim>\<open>getAllMessages(limit)\<close>: a cursor over the \<^verbatim>\<open>expires_at\<close> index from
  \<^verbatim>\<open>lowerBound(now)\<close>, stopped after \<open>limit\<close> records; a falsy limit (\<^verbatim>\<open>null\<close>, 0) is
  no limit. An index yields its records by index key, those with the same index key by
  primary key.
\<close>

definition getAllMessages :: "offline_store \<Rightarrow> nat \<Rightarrow> nat \<Rightarrow> offline_record list" where
  "getAllMessages st now limit =
     (let live = sort_key (\<lambda>r. (expires_at r, key_text (stored_id r)))
                   (filter (\<lambda>r. now \<le> expires_at r) st)
      in if limit = 0 then live else take limit live)"

definition deleteMessages :: "offline_store \<Rightarrow> msg_id list \<Rightarrow> offline_store" where
  "deleteMessages st msgIds = filter (\<lambda>r. stored_id r \<notin> set msgIds) st"

definition getMessageCount :: "offline_store \<Rightarrow> nat \<Rightarrow> nat" where
  "getMessageCount st now = length (filter (\<lambda>r. now \<le> expires_at r) st)"

text \<open>\<^verbatim>\<open>cleanupExpired()\<close>: deletes \<^verbatim>\<open>upperBound(now - 1)\<close> and returns the number deleted.\<close>

definition cleanupExpired :: "offline_store \<Rightarrow> nat \<Rightarrow> offline_store \<times> nat" where
  "cleanupExpired st now =
     (filter (\<lambda>r. now \<le> expires_at r) st, length (filter (\<lambda>r. expires_at r < now) st))"

subsection \<open>Transport\<close>

datatype request =
    PostMessage message
  | PostMessages "message list"
  | GetCheckMessages nat
  | HeadStatus
  | PutStatus bool

text \<open>
  What a \<^verbatim>\<open>fetch\<close> does: it resolves with a status and a body, or it rejects (network
  error) or is aborted by the timeout.
\<close>

datatype fetch_result = Response nat "json json_text" | NetworkError | AbortError

datatype error = Error string

subsection \<open>The client\<close>

record client =
  queue :: "message list"
  maxQueueSize :: rat
  hasCallback :: bool
  minBatchSize :: nat
  maxBatchSize :: nat
  minBatchInterval :: rat
  maxBatchInterval :: rat
  senderInterval :: "rat option"
  messageCheckInterval :: "rat option"
  checkMsgRate :: rat
  checkMsgLimit :: nat
  lastMsgCheck :: nat
  connectionState :: bool
  lastConnectionCheck :: nat
  lastCleanup :: nat
  isRunning :: bool
  storage :: "offline_store option"

text \<open>
  \<open>senderInterval\<close> and \<open>messageCheckInterval\<close> hold the period of the active
  \<^verbatim>\<open>setInterval\<close> timer, \<open>None\<close> for \<^verbatim>\<open>null\<close>. \<open>storage\<close> holds the contents of the
  IndexedDB object store when offline storage is enabled.
\<close>

record config =
  cfg_minBatchSize :: nat
  cfg_maxBatchSize :: nat
  cfg_minBatchInterval :: rat
  cfg_maxBatchInterval :: rat
  cfg_callback :: bool
  cfg_maxQueueSize :: rat
  cfg_checkMsgRate :: rat
  cfg_checkMsgLimit :: nat
  cfg_offlineStorage :: bool

definition defaults :: config where
  "defaults = \<lparr> cfg_minBatchSize = 10, cfg_maxBatchSize = 100,
                 cfg_minBatchInterval = 100, cfg_maxBatchInterval = 1000,
                 cfg_callback = False, cfg_maxQueueSize = 1000,
                 cfg_checkMsgRate = 3000, cfg_checkMsgLimit = 1,
                 cfg_offlineStorage = False \<rparr>"

definition TendrlClient :: "config \<Rightarrow> client" where
  "TendrlClient cfg =
     \<lparr> queue = [],
       maxQueueSize = cfg_maxQueueSize cfg,
       hasCallback = cfg_callback cfg,
       minBatchSize = cfg_minBatchSize cfg,
       maxBatchSize = cfg_maxBatchSize cfg,
       minBatchInterval = cfg_minBatchInterval cfg,
       maxBatchInterval = cfg_maxBatchInterval cfg,
       senderInterval = None,
       messageCheckInterval = None,
       checkMsgRate = cfg_checkMsgRate cfg,
       checkMsgLimit = cfg_checkMsgLimit cfg,
       lastMsgCheck = 0,
       connectionState = True,
       lastConnectionCheck = 0,
       lastCleanup = 0,
       isRunning = False,
       storage = (if cfg_offlineStorage cfg then Some [] else None) \<rparr>"

section \<open>Batching\<close>

text \<open>\<^verbatim>\<open>getBatch()\<close>: \<^verbatim>\<open>queue.splice(0, Math.min(queue.length, maxBatchSize))\<close>.\<close>

definition getBatch :: "client \<Rightarrow> message list \<times> client" where
  "getBatch c =
     (let batchSize = min (length (queue c)) (maxBatchSize c)
      in (take batchSize (queue c), c\<lparr>queue := drop batchSize (queue c)\<rparr>))"

text \<open>
  \<^verbatim>\<open>calculateBatchInterval()\<close>. The division is the source's
  \<^verbatim>\<open>queue.length / maxQueueSize\<close>; with \<^verbatim>\<open>maxQueueSize = 0\<close> JavaScript yields NaN or
  Infinity, which the rationals do not have, so statements about the interval assume
  \<open>0 < maxQueueSize\<close>.
\<close>

definition queueLoad :: "client \<Rightarrow> rat" where
  "queueLoad c = (of_nat (length (queue c)) / maxQueueSize c) * 100"

definition calculateBatchInterval :: "client \<Rightarrow> rat" where
  "calculateBatchInterval c =
     (if queueLoad c < 25 then minBatchInterval c
      else if queueLoad c > 75 then maxBatchInterval c
      else minBatchInterval c
           + ((maxBatchInterval c - minBatchInterval c) * queueLoad c) / 100)"

section \<open>Publishing\<close>

text \<open>JavaScript truthiness of a JSON value, and \<^verbatim>\<open>result.content || result\<close>.\<close>

fun truthy :: "json \<Rightarrow> bool" where
  "truthy JNull = False"
| "truthy (JBool b) = b"
| "truthy (JNum n) = (n \<noteq> 0)"
| "truthy (JStr s) = (s \<noteq> [])"
| "truthy (JArr _) = True"
| "truthy (JObj _) = True"

fun content_or_result :: "json \<Rightarrow> json" where
  "content_or_result (JObj kvs) =
     (case map_of kvs ''content'' of
        Some v \<Rightarrow> (if truthy v then v else JObj kvs)
      | None \<Rightarrow> JObj kvs)"
| "content_or_result v = v"

text \<open>
  \<^verbatim>\<open>_publishMessage(message)\<close>: one POST; the reply on status 200, \<^verbatim>\<open>null\<close> (\<open>None\<close>) on
  any other status, on a body that does not parse or is \<^verbatim>\<open>null\<close> (reading \<^verbatim>\<open>.content\<close> of
  it throws) and on a rejected or aborted fetch.
\<close>

definition publishMessage :: "message \<Rightarrow> fetch_result \<Rightarrow> json option \<times> request list" where
  "publishMessage message fr =
     (case fr of
        Response status body \<Rightarrow>
          (if status = 200
           then (case JSON_parse body of
                   Some result \<Rightarrow> (if result = JNull then None
                                   else Some (content_or_result result))
                 | None \<Rightarrow> None)
           else None)
      | NetworkError \<Rightarrow> None
      | AbortError \<Rightarrow> None,
      [PostMessage message])"

text \<open>
  \<^verbatim>\<open>_publishMessages(messages)\<close>: nothing is sent for an empty batch (the source returns
  \<^verbatim>\<open>undefined\<close>, which its callers read as falsy); otherwise one POST, \<^verbatim>\<open>true\<close> on
  status 201 or 200.
\<close>

definition publishMessages :: "message list \<Rightarrow> fetch_result \<Rightarrow> bool \<times> request list" where
  "publishMessages messages fr =
     (if messages = [] then (False, [])
      else (case fr of
              Response status body \<Rightarrow> status = 201 \<or> status = 200
            | NetworkError \<Rightarrow> False
            | AbortError \<Rightarrow> False,
            [PostMessages messages]))"

record store_env =
  se_now :: nat
  se_random :: string
  se_ok :: bool

text \<open>
  The spill of one message, as written twice in the source (in \<^verbatim>\<open>publish\<close> and in
  \<^verbatim>\<open>_storeBatchOffline\<close>): a fresh key, \<^verbatim>\<open>message.data\<close>, \<^verbatim>\<open>context.tags || null\<close> and a
  TTL of 3600 seconds. When the write is rejected (\<open>se_ok\<close> false) the error is logged and
  the store is as before.
\<close>

definition context_tags :: "message \<Rightarrow> string list option" where
  "context_tags message = (case msg_context message of None \<Rightarrow> None | Some cx \<Rightarrow> tags cx)"

definition storeOffline :: "offline_store \<Rightarrow> store_env \<Rightarrow> message \<Rightarrow> offline_store" where
  "storeOffline st e message =
     (let msgId = OfflineId (se_now e) (se_random e)
      in if se_ok e
         then storage_store st (se_now e) msgId (data message) (context_tags message) 3600
         else st)"

datatype publish_result = ReturnsUndefined | ReturnsPromise "json option"

record publish_env =
  pe_now :: nat
  pe_fetch :: fetch_result
  pe_store :: store_env

text \<open>The payload of a message whose \<^verbatim>\<open>typeof\<close> is string or object.\<close>

fun payload :: "js_value \<Rightarrow> json" where
  "payload (VString s) = JObj [(''data'', JStr s)]"
| "payload (VObject kvs) = JObj kvs"
| "payload (VArray xs) = JArr xs"
| "payload _ = JNull"

text \<open>
  The first half of \<^verbatim>\<open>publish\<close>: the checks on the argument and the message built
  from it (\<open>now\<close> is the clock).
\<close>

definition createMessage ::
  "js_value \<Rightarrow> string list \<Rightarrow> string \<Rightarrow> bool \<Rightarrow> nat \<Rightarrow> error + message" where
  "createMessage msg tgs entity waitResponse now =
     (if msg = VNull \<or> msg = VUndefined then Inl (Error ''Message cannot be null or undefined'')
      else if typeof msg \<noteq> ''string'' \<and> typeof msg \<noteq> ''object''
      then Inl (Error (''Invalid message type: '' @ typeof msg @ ''. Expected string or object.''))
      else
        Inr \<lparr> msg_type = ''publish'', data = payload msg, timestamp = ISOString now,
              msg_context =
                (if length tgs > 0 \<or> waitResponse \<or> entity \<noteq> []
                 then Some \<lparr> tags = (if length tgs > 0 then Some tgs else None),
                             wait = (if waitResponse then Some True else None) \<rparr>
                 else None),
              dest = (if entity \<noteq> [] then Some entity else None) \<rparr>)"

text \<open>
  \<^verbatim>\<open>publish(msg, tags, entity, waitResponse)\<close>: the immediate send, the push on the
  queue, or, with a full queue, the spill to the offline store when there is one.
\<close>

definition publish ::
  "client \<Rightarrow> js_value \<Rightarrow> string list \<Rightarrow> string \<Rightarrow> bool \<Rightarrow> publish_env
     \<Rightarrow> error + (client \<times> publish_result \<times> request list)" where
  "publish c msg tgs entity waitResponse e =
     (case createMessage msg tgs entity waitResponse (pe_now e) of
        Inl err \<Rightarrow> Inl err
      | Inr message \<Rightarrow>
          (if waitResponse
           then (let (reply, reqs) = publishMessage message (pe_fetch e)
                 in Inr (c, ReturnsPromise reply, reqs))
           else if of_nat (length (queue c)) < maxQueueSize c
           then Inr (c\<lparr>queue := queue c @ [message]\<rparr>, ReturnsUndefined, [])
           else (case storage c of
                   Some st \<Rightarrow>
                     Inr (c\<lparr>storage := Some (storeOffline st (pe_store e) message)\<rparr>,
                          ReturnsUndefined, [])
                 | None \<Rightarrow> Inr (c, ReturnsUndefined, []))))"

section \<open>Heartbeat\<close>

record heartbeat_args =
  mem_free :: "rat option"
  mem_total :: "rat option"
  disk_free :: "rat option"
  disk_size :: "rat option"

text \<open>One field of the heartbeat: rejected when provided and negative, copied when provided.\<close>

definition heartbeat_field ::
  "string \<Rightarrow> rat option \<Rightarrow> (string \<times> json) list \<Rightarrow> error + (string \<times> json) list" where
  "heartbeat_field name v heartbeatData =
     (case v of
        None \<Rightarrow> Inr heartbeatData
      | Some x \<Rightarrow>
          (if x < 0 then Inl (Error (name @ '' must be non-negative''))
           else Inr (heartbeatData @ [(name, JNum x)])))"

definition sendHeartbeat ::
  "heartbeat_args \<Rightarrow> nat \<Rightarrow> fetch_result \<Rightarrow> (error + json option) \<times> request list" where
  "sendHeartbeat args now fr =
     (case heartbeat_field ''mem_free'' (mem_free args) [] of
        Inl err \<Rightarrow> (Inl err, [])
      | Inr d1 \<Rightarrow>
     (case heartbeat_field ''mem_total'' (mem_total args) d1 of
        Inl err \<Rightarrow> (Inl err, [])
      | Inr d2 \<Rightarrow>
     (case heartbeat_field ''disk_free'' (disk_free args) d2 of
        Inl err \<Rightarrow> (Inl err, [])
      | Inr d3 \<Rightarrow>
     (case heartbeat_field ''disk_size'' (disk_size args) d3 of
        Inl err \<Rightarrow> (Inl err, [])
      | Inr heartbeatData \<Rightarrow>
          (let heartbeatMessage =
                 \<lparr> msg_type = ''heartbeat'', data = JObj heartbeatData,
                   timestamp = ISOSeconds (now div 1000),
                   msg_context = None, dest = None \<rparr>;
               (reply, reqs) = publishMessage heartbeatMessage fr
           in (Inr reply, reqs))))))"

section \<open>Message checking and connection state\<close>

text \<open>
  \<^verbatim>\<open>checkMessagesAPI(limit)\<close>, as far as the client's state goes. Status 204 and every
  status other than 200 return early. On status 200 the body is read: a body that does not
  parse, or that is \<^verbatim>\<open>null\<close> (reading \<^verbatim>\<open>.messages\<close> of it throws), lands in the
  \<^verbatim>\<open>catch\<close>. The dispatch to the handler (\<^verbatim>\<open>handleCheckMessagesResponse\<close>) catches every
  error of its own and does not touch the state, so it is not shown.
\<close>

definition checkMessagesAPI :: "client \<Rightarrow> nat \<Rightarrow> nat \<Rightarrow> fetch_result \<Rightarrow> client \<times> request list" where
  "checkMessagesAPI c limit now fr =
     (case fr of
        Response status body \<Rightarrow>
          (if status = 204 then c
           else if status \<noteq> 200 then c
           else (case JSON_parse body of
                   None \<Rightarrow> c\<lparr>connectionState := False\<rparr>
                 | Some JNull \<Rightarrow> c\<lparr>connectionState := False\<rparr>
                 | Some responseData \<Rightarrow> c\<lparr>lastMsgCheck := now, connectionState := True\<rparr>))
      | NetworkError \<Rightarrow> c\<lparr>connectionState := False\<rparr>
      | AbortError \<Rightarrow> c\<lparr>connectionState := False\<rparr>,
      [GetCheckMessages limit])"

text \<open>\<^verbatim>\<open>checkConnectionState()\<close>: the state it returns, and the probe if one was issued.\<close>

definition checkConnectionState ::
  "client \<Rightarrow> nat \<Rightarrow> fetch_result \<Rightarrow> client \<times> bool \<times> request list" where
  "checkConnectionState c currentTime fr =
     (if currentTime < lastConnectionCheck c + 30000 then (c, connectionState c, [])
      else
        let c1 = c\<lparr>lastConnectionCheck := currentTime\<rparr>;
            c2 = (case fr of
                    Response status body \<Rightarrow> c1\<lparr>connectionState := (status < 500)\<rparr>
                  | NetworkError \<Rightarrow> c1\<lparr>connectionState := False\<rparr>
                  | AbortError \<Rightarrow> c1\<lparr>connectionState := False\<rparr>)
        in (c2, connectionState c2, [HeadStatus]))"

definition isConnected :: "client \<Rightarrow> bool" where
  "isConnected c = (connectionState c \<and> isRunning c)"

section \<open>Offline spill and replay\<close>

text \<open>
  \<^verbatim>\<open>_storeBatchOffline(messages)\<close>: the messages one by one, each with its own clock
  reading, random suffix and write outcome (\<open>env i\<close> for the \<open>i\<close>-th message).
\<close>

fun storeLoop :: "offline_store \<Rightarrow> (nat \<Rightarrow> store_env) \<Rightarrow> nat \<Rightarrow> message list \<Rightarrow> offline_store" where
  "storeLoop st env i [] = st"
| "storeLoop st env i (message # messages) =
     storeLoop (storeOffline st (env i) message) env (Suc i) messages"

definition storeBatchOffline :: "client \<Rightarrow> message list \<Rightarrow> (nat \<Rightarrow> store_env) \<Rightarrow> client" where
  "storeBatchOffline c messages env =
     (case storage c of
        None \<Rightarrow> c
      | Some st \<Rightarrow>
          (if messages = [] then c
           else c\<lparr>storage := Some (storeLoop st env 0 messages)\<rparr>))"

text \<open>
  One stored record back to a message: \<^verbatim>\<open>JSON.parse\<close> of the data, and of the tags when
  the field is truthy (\<^verbatim>\<open>null\<close> and the empty string are not). \<open>None\<close> is the \<^verbatim>\<open>catch\<close>
  branch: the record is corrupted.
\<close>

definition parseStored :: "nat \<Rightarrow> offline_record \<Rightarrow> message option" where
  "parseStored now storedMsg =
     (case JSON_parse (stored_data storedMsg) of
        None \<Rightarrow> None
      | Some d \<Rightarrow>
          (case (case stored_tags storedMsg of
                   None \<Rightarrow> Some None
                 | Some (Malformed []) \<Rightarrow> Some None
                 | Some t \<Rightarrow> (case JSON_parse t of None \<Rightarrow> None | Some ts \<Rightarrow> Some (Some ts))) of
             None \<Rightarrow> None
           | Some tgs \<Rightarrow>
               Some \<lparr> msg_type = ''publish'', data = d, timestamp = ISOString now,
                      msg_context =
                        (case tgs of
                           Some ts \<Rightarrow> (if length ts > 0
                                       then Some \<lparr> tags = Some ts, wait = None \<rparr> else None)
                         | None \<Rightarrow> None),
                      dest = None \<rparr>))"

text \<open>
  The inner \<^verbatim>\<open>for\<close> loop over a page: the messages to send, and the ids to delete (those
  of the messages to send and those of the corrupted records), both in page order.
\<close>

fun convertStored :: "nat \<Rightarrow> offline_record list \<Rightarrow> message list \<times> msg_id list" where
  "convertStored now [] = ([], [])"
| "convertStored now (storedMsg # rest) =
     (let (messagesToSend, messageIdsToDelete) = convertStored now rest
      in (case parseStored now storedMsg of
            Some message \<Rightarrow> (message # messagesToSend, stored_id storedMsg # messageIdsToDelete)
          | None \<Rightarrow> (messagesToSend, stored_id storedMsg # messageIdsToDelete)))"

record replay_env =
  rp_now :: nat
  rp_readOk :: bool
  rp_send :: fetch_result
  rp_deleteOk :: bool

text \<open>
  One turn of the \<^verbatim>\<open>while\<close> loop of \<^verbatim>\<open>processOfflineMessages\<close>: the store after it, the
  requests issued, and \<open>Some n\<close> when the loop goes on with \<open>processed\<close> increased by \<open>n\<close>,
  \<open>None\<close> when it ends (a \<^verbatim>\<open>break\<close>, or an error caught). The environment gives the
  clock, the outcome of the send and whether the read and the delete of this turn succeed:
  \<^item> a rejected \<^verbatim>\<open>getAllMessages\<close> lands in the outer \<^verbatim>\<open>catch\<close>;
  \<^item> a rejected \<^verbatim>\<open>deleteMessages\<close> after a successful send lands in the \<^verbatim>\<open>catch\<close> around
    the send, which breaks; in the branch without a send it lands in the outer \<^verbatim>\<open>catch\<close>.
    Either way the transaction is taken to have deleted nothing.
\<close>

definition replayPage :: "offline_store \<Rightarrow> replay_env \<Rightarrow> offline_store \<times> request list \<times> nat option" where
  "replayPage st e =
     (if \<not> rp_readOk e then (st, [], None)
      else
        let storedMessages = getAllMessages st (rp_now e) 50
        in if storedMessages = [] then (st, [], None)
           else
             let (messagesToSend, messageIdsToDelete) = convertStored (rp_now e) storedMessages
             in if length messagesToSend > 0
                then (let (success, reqs) = publishMessages messagesToSend (rp_send e)
                      in if success
                         then (if rp_deleteOk e
                               then (deleteMessages st messageIdsToDelete, reqs,
                                     Some (length messagesToSend))
                               else (st, reqs, None))
                         else (st, reqs, None))
                else (if rp_deleteOk e then (deleteMessages st messageIdsToDelete, [], None)
                      else (st, [], None)))"

lemma replayPage_continue_pos:
  "replayPage st e = (st', reqs, Some n) \<Longrightarrow> 0 < n"
  by (auto simp: replayPage_def Let_def split: if_splits prod.splits)

text \<open>
  The \<^verbatim>\<open>while (processed < totalCount)\<close> loop; \<open>env k\<close> is the clock and the transport
  outcome of its \<open>k\<close>-th turn. It ends because every turn that goes on has sent at
  least one message.
\<close>

function replayLoop ::
  "(nat \<Rightarrow> replay_env) \<Rightarrow> nat \<Rightarrow> nat \<Rightarrow> nat \<Rightarrow> offline_store \<Rightarrow> offline_store \<times> request list" where
  "replayLoop env k processed totalCount st =
     (if processed < totalCount
      then (case replayPage st (env k) of
              (st', reqs, None) \<Rightarrow> (st', reqs)
            | (st', reqs, Some n) \<Rightarrow>
                (let (st'', reqs') = replayLoop env (Suc k) (processed + n) totalCount st'
                 in (st'', reqs @ reqs')))
      else (st, []))"
  by pat_completeness auto
termination
  by (relation "measure (\<lambda>(env, k, processed, totalCount, st). totalCount - processed)")
     (auto dest: replayPage_continue_pos [OF sym])

declare replayLoop.simps [simp del]

text \<open>
  \<^verbatim>\<open>processOfflineMessages()\<close>; \<open>now\<close> is the clock at the count, and a rejected
  \<^verbatim>\<open>getMessageCount\<close> (\<open>countOk\<close> false) lands in the outer \<^verbatim>\<open>catch\<close>.
\<close>

definition processOfflineMessages ::
  "client \<Rightarrow> nat \<Rightarrow> bool \<Rightarrow> (nat \<Rightarrow> replay_env) \<Rightarrow> client \<times> request list" where
  "processOfflineMessages c now countOk env =
     (case storage c of
        None \<Rightarrow> (c, [])
      | Some st \<Rightarrow>
          (if \<not> countOk then (c, [])
           else
             let totalCount = getMessageCount st now
             in if totalCount = 0 then (c, [])
                else (let (st', reqs) = replayLoop env 0 0 totalCount st
                      in (c\<lparr>storage := Some st'\<rparr>, reqs))))"

section \<open>The sender\<close>

text \<open>
  \<^verbatim>\<open>startSender()\<close> clears a running timer and calls
  \<^verbatim>\<open>setInterval(tick, this.calculateBatchInterval())\<close>: the delay is the value of the
  call at that moment. \<^verbatim>\<open>stopSender()\<close> clears the timer.
\<close>

definition startSender :: "client \<Rightarrow> client" where
  "startSender c = c\<lparr>senderInterval := Some (calculateBatchInterval c)\<rparr>"

definition stopSender :: "client \<Rightarrow> client" where
  "stopSender c = c\<lparr>senderInterval := None\<rparr>"

record tick_env =
  te_currentTime :: nat
  te_checkTime :: nat
  te_probe :: fetch_result
  te_replayTime :: nat
  te_replayCountOk :: bool
  te_replay :: "nat \<Rightarrow> replay_env"
  te_send :: fetch_result
  te_store :: "nat \<Rightarrow> store_env"
  te_cleanupTime :: nat
  te_cleanupOk :: bool

text \<open>
  The callback of the sender's timer, in its three parts. \<open>te_currentTime\<close> is its own
  clock reading, \<open>te_checkTime\<close> the later reading inside \<^verbatim>\<open>checkConnectionState\<close>.

  First part: the connection check every 30 seconds and, when the connection came back
  and there is an offline store, the replay.
\<close>

definition tickConnection :: "client \<Rightarrow> tick_env \<Rightarrow> client \<times> request list" where
  "tickConnection c e =
     (let currentTime = te_currentTime e
      in if currentTime \<ge> lastConnectionCheck c + 30000
         then (let previousState = connectionState c;
                   (ca, known, rq) = checkConnectionState c (te_checkTime e) (te_probe e);
                   cb = ca\<lparr>lastConnectionCheck := currentTime\<rparr>
               in if \<not> previousState \<and> connectionState cb \<and> storage cb \<noteq> None
                  then (let (cc, rq') = processOfflineMessages cb (te_replayTime e)
                                          (te_replayCountOk e) (te_replay e)
                        in (cc, rq @ rq'))
                  else (cb, rq))
         else (c, []))"

text \<open>
  Second part: one batch off the queue; sent when connected, spilled to the offline store
  (when there is one) if the send fails or the client is not connected. The third
  component is the batch taken (empty when the queue was empty).
\<close>

definition tickSend :: "client \<Rightarrow> tick_env \<Rightarrow> client \<times> request list \<times> message list" where
  "tickSend c e =
     (if length (queue c) > 0
      then (let (batch, cq) = getBatch c
            in if length batch > 0
               then (if connectionState cq
                     then (let (success, rq) = publishMessages batch (te_send e)
                           in if \<not> success \<and> storage cq \<noteq> None
                              then (storeBatchOffline cq batch (te_store e), rq, batch)
                              else (cq, rq, batch))
                     else (if storage cq \<noteq> None
                           then (storeBatchOffline cq batch (te_store e), [], batch)
                           else (cq, [], batch)))
               else (cq, [], batch))
      else (c, [], []))"

text \<open>
  Third part: the cleanup of expired records every 60 seconds; when it fails
  (\<open>te_cleanupOk\<close> false) the error is logged and \<^verbatim>\<open>_lastCleanup\<close> stays.
\<close>

definition tickCleanup :: "client \<Rightarrow> tick_env \<Rightarrow> client" where
  "tickCleanup c e =
     (case storage c of
        Some st \<Rightarrow>
          (if te_currentTime e \<ge> lastCleanup c + 60000
           then (if te_cleanupOk e
                 then c\<lparr>storage := Some (fst (cleanupExpired st (te_cleanupTime e))),
                        lastCleanup := te_currentTime e\<rparr>
                 else c)
           else c)
      | None \<Rightarrow> c)"

definition senderTick :: "client \<Rightarrow> tick_env \<Rightarrow> client \<times> request list \<times> message list" where
  "senderTick c e =
     (let (c1, reqs1) = tickConnection c e;
          (c2, reqs2, taken) = tickSend c1 e;
          c3 = tickCleanup c2 e
      in (c3, reqs1 @ reqs2, taken))"

section \<open>Runs of the client\<close>

text \<open>
  The operations that touch the queue, and what one of them does: the client after it,
  the batch it took off the queue, and the messages it pushed on the queue. A
  \<^verbatim>\<open>publish\<close> that throws leaves the client as it was.
\<close>

datatype operation =
    Publish js_value "string list" string bool publish_env
  | GetBatch
  | SenderTick tick_env

fun exec :: "client \<Rightarrow> operation \<Rightarrow> client \<times> message list \<times> message list" where
  "exec c (Publish msg tgs entity waitResponse e) =
     (case publish c msg tgs entity waitResponse e of
        Inl err \<Rightarrow> (c, [], [])
      | Inr (c', r, reqs) \<Rightarrow>
          (c', [],
           (case createMessage msg tgs entity waitResponse (pe_now e) of
              Inr message \<Rightarrow>
                (if \<not> waitResponse \<and> of_nat (length (queue c)) < maxQueueSize c
                 then [message] else [])
            | Inl err \<Rightarrow> [])))"
| "exec c GetBatch = (let (batch, c') = getBatch c in (c', batch, []))"
| "exec c (SenderTick e) = (let (c', reqs, taken) = senderTick c e in (c', taken, []))"

text \<open>
  A run: the client at the end, the batches taken in order, and the messages accepted
  into the queue in order.
\<close>

fun run :: "client \<Rightarrow> operation list \<Rightarrow> client \<times> message list list \<times> message list" where
  "run c [] = (c, [], [])"
| "run c (x # xs) =
     (let (c1, batch, pushed) = exec c x;
          (c2, batches, accepted) = run c1 xs
      in (c2, batch # batches, pushed @ accepted))"

definition final :: "client \<Rightarrow> operation list \<Rightarrow> client" where
  "final c xs = fst (run c xs)"

definition batches :: "client \<Rightarrow> operation list \<Rightarrow> message list list" where
  "batches c xs = fst (snd (run c xs))"

definition accepted :: "client \<Rightarrow> operation list \<Rightarrow> message list" where
  "accepted c xs = snd (snd (run c xs))"

section \<open>Invariants\<close>

text \<open>The fields that only the constructor and \<^verbatim>\<open>startSender\<close> set.\<close>

definition same_setup :: "client \<Rightarrow> client \<Rightarrow> bool" where
  "same_setup c c' \<longleftrightarrow>
     maxQueueSize c' = maxQueueSize c \<and> maxBatchSize c' = maxBatchSize c
     \<and> minBatchInterval c' = minBatchInterval c \<and> maxBatchInterval c' = maxBatchInterval c
     \<and> senderInterval c' = senderInterval c"

text \<open>The invariant of the queue.\<close>

definition queue_bounded :: "client \<Rightarrow> bool" where
  "queue_bounded c \<longleftrightarrow> of_nat (length (queue c)) \<le> maxQueueSize c"

section \<open>Notions used in the statements\<close>

text \<open>A heartbeat field that is provided and negative.\<close>

definition negative_field :: "rat option \<Rightarrow> bool" where
  "negative_field v = (case v of Some x \<Rightarrow> x < 0 | None \<Rightarrow> False)"

text \<open>The entry a provided field adds to the heartbeat data.\<close>

definition provided :: "string \<Rightarrow> rat option \<Rightarrow> (string \<times> json) list" where
  "provided name v = (case v of Some x \<Rightarrow> [(name, JNum x)] | None \<Rightarrow> [])"

text \<open>The heartbeat message for arguments that pass the checks.\<close>

definition heartbeat_of :: "heartbeat_args \<Rightarrow> nat \<Rightarrow> message" where
  "heartbeat_of args now =
     \<lparr> msg_type = ''heartbeat'',
       data = JObj (provided ''mem_free'' (mem_free args) @ provided ''mem_total'' (mem_total args)
                    @ provided ''disk_free'' (disk_free args) @ provided ''disk_size'' (disk_size args)),
       timestamp = ISOSeconds (now div 1000), msg_context = None, dest = None \<rparr>"

text \<open>
  The state a probe leaves: \<^verbatim>\<open>response.status < 500\<close>, and \<^verbatim>\<open>false\<close> when the fetch
  rejects or is aborted by the 2 second timeout.
\<close>

definition probe_ok :: "fetch_result \<Rightarrow> bool" where
  "probe_ok fr = (case fr of Response status body \<Rightarrow> status < 500
                  | NetworkError \<Rightarrow> False | AbortError \<Rightarrow> False)"

text \<open>
  The times at which a sequence of \<^verbatim>\<open>checkConnectionState\<close> calls (each with its clock
  reading and the outcome a probe would have) issues a probe.
\<close>

fun probes :: "client \<Rightarrow> (nat \<times> fetch_result) list \<Rightarrow> nat list" where
  "probes c [] = []"
| "probes c ((t, fr) # calls) =
     (let (c', known, rq) = checkConnectionState c t fr
      in (if rq = [] then [] else [t]) @ probes c' calls)"

text \<open>
  Every time in the list is at least 30000 ms after the one before, the first one after
  \<open>lo\<close>.
\<close>

fun spaced :: "nat \<Rightarrow> nat list \<Rightarrow> bool" where
  "spaced lo [] = True"
| "spaced lo (p # ps) = (lo + 30000 \<le> p \<and> spaced p ps)"

text \<open>The record that the spill of a message writes: built from its data and its tags.\<close>

definition spilled :: "store_env \<Rightarrow> message \<Rightarrow> offline_record" where
  "spilled e m =
     stored_record (se_now e) (OfflineId (se_now e) (se_random e)) (data m) (context_tags m) 3600"

text \<open>The key under which a spill writes.\<close>

definition spill_key :: "store_env \<Rightarrow> msg_id" where
  "spill_key e = OfflineId (se_now e) (se_random e)"

text \<open>The message that the replay builds, at time \<open>now\<close>, from the record of a message.\<close>

definition replayed :: "nat \<Rightarrow> message \<Rightarrow> message" where
  "replayed now m =
     \<lparr> msg_type = ''publish'', data = data m, timestamp = ISOString now,
       msg_context = (case context_tags m of
                        None \<Rightarrow> None
                      | Some ts \<Rightarrow> Some \<lparr> tags = Some ts, wait = None \<rparr>),
       dest = None \<rparr>"

section \<open>Sample inputs\<close>

definition sample_message :: "nat \<Rightarrow> message" where
  "sample_message n =
     \<lparr> msg_type = ''publish'', data = JObj [(''n'', JNum (of_nat n))],
       timestamp = ISOString n, msg_context = None, dest = None \<rparr>"

text \<open>A client with room for four messages that holds the given ones.\<close>

definition small_client :: "message list \<Rightarrow> client" where
  "small_client ms = (TendrlClient (defaults\<lparr>cfg_maxQueueSize := 4\<rparr>))\<lparr>queue := ms\<rparr>"

text \<open>The same client sending batches of two.\<close>

definition batch_client :: "message list \<Rightarrow> client" where
  "batch_client ms = (small_client ms)\<lparr>maxBatchSize := 2\<rparr>"

text \<open>An environment whose clock reads \<open>t\<close>.\<close>

definition at_time :: "nat \<Rightarrow> publish_env" where
  "at_time t = \<lparr> pe_now = t, pe_fetch = NetworkError,
                 pe_store = \<lparr> se_now = t, se_random = ''k3j9x0q1z'', se_ok = True \<rparr> \<rparr>"

definition sample_run :: "operation list" where
  "sample_run =
     [Publish (VString ''a'') [] [] False (at_time 1),
      Publish (VString ''b'') [] [] False (at_time 2),
      Publish (VString ''c'') [] [] False (at_time 3),
      GetBatch,
      Publish (VString ''d'') [] [] False (at_time 4),
      GetBatch,
      GetBatch]"

text \<open>The message that \<^verbatim>\<open>publish(s)\<close> builds at time \<open>t\<close>.\<close>

definition text_message :: "string \<Rightarrow> nat \<Rightarrow> message" where
  "text_message s t =
     \<lparr> msg_type = ''publish'', data = JObj [(''data'', JStr s)], timestamp = ISOString t,
       msg_context = None, dest = None \<rparr>"

definition three_publishes :: "operation list" where
  "three_publishes =
     [Publish (VString ''a'') [] [] False (at_time 1),
      Publish (VString ''b'') [] [] False (at_time 2),
      Publish (VString ''c'') [] [] False (at_time 3)]"

definition five_publishes :: "operation list" where
  "five_publishes =
     [Publish (VString ''a'') [] [] False (at_time 1),
      Publish (VString ''b'') [] [] False (at_time 2),
      Publish (VString ''c'') [] [] False (at_time 3),
      Publish (VString ''d'') [] [] False (at_time 4),
      Publish (VString ''e'') [] [] False (at_time 5)]"

text \<open>An offline store with one sound record and one whose data does not parse.\<close>

definition good_record :: offline_record where
  "good_record = \<lparr> stored_id = OfflineId 1000 ''k3j9x0q1z'',
                    stored_data = Stringified (JObj [(''data'', JStr ''a'')]),
                    stored_tags = Some (Stringified [''t'']),
                    expires_at = 3601000 \<rparr>"

definition bad_record :: offline_record where
  "bad_record = \<lparr> stored_id = OfflineId 1001 ''p0o9i8u7y'',
                   stored_data = Malformed ''{\"data\":'',
                   stored_tags = None,
                   expires_at = 3601001 \<rparr>"

definition offline_client :: "offline_store \<Rightarrow> client" where
  "offline_client st = (small_client [])\<lparr>storage := Some st\<rparr>"

text \<open>A replay in which every send has the same outcome.\<close>

definition replay_all :: "fetch_result \<Rightarrow> nat \<Rightarrow> replay_env" where
  "replay_all fr k = \<lparr> rp_now = 50000 + k, rp_readOk = True, rp_send = fr, rp_deleteOk = True \<rparr>"

text \<open>What replaying the sound record at time \<open>now\<close> sends.\<close>

definition replayed_good :: "nat \<Rightarrow> message" where
  "replayed_good now =
     \<lparr> msg_type = ''publish'', data = JObj [(''data'', JStr ''a'')], timestamp = ISOString now,
       msg_context = Some \<lparr> tags = Some [''t''], wait = None \<rparr>, dest = None \<rparr>"

text \<open>A sender tick one second after the start; the transport accepts the batch.\<close>

definition quiet_tick :: tick_env where
  "quiet_tick = \<lparr> te_currentTime = 1000, te_checkTime = 1000,
                   te_probe = Response 200 (Stringified JNull),
                   te_replayTime = 1000, te_replayCountOk = True,
                   te_replay = replay_all (Response 201 (Stringified JNull)),
                   te_send = Response 201 (Stringified JNull),
                   te_store = (\<lambda>i. \<lparr> se_now = 1000 + i, se_random = ''k3j9x0q1z'', se_ok = True \<rparr>),
                   te_cleanupTime = 1000, te_cleanupOk = True \<rparr>"

text \<open>Three messages published, then one tick.\<close>

definition loaded_run :: "operation list" where
  "loaded_run =
     [Publish (VString ''a'') [] [] False (at_time 1),
      Publish (VString ''b'') [] [] False (at_time 2),
      Publish (VString ''c'') [] [] False (at_time 3),
      SenderTick quiet_tick]"

text \<open>A new client with room for four messages that sends them one at a time.\<close>

definition one_by_one :: client where
  "one_by_one = TendrlClient (defaults\<lparr>cfg_maxQueueSize := 4, cfg_maxBatchSize := 1\<rparr>)"

text \<open>Heartbeat arguments with a negative field, and without.\<close>

definition low_memory :: heartbeat_args where
  "low_memory = \<lparr> mem_free = Some (-1), mem_total = Some 8192, disk_free = None, disk_size = None \<rparr>"

definition sound_memory :: heartbeat_args where
  "sound_memory = \<lparr> mem_free = Some 0, mem_total = Some 8192, disk_free = None, disk_size = None \<rparr>"

text \<open>Five connection checks within about a minute.\<close>

definition sample_checks :: "(nat \<times> fetch_result) list" where
  "sample_checks =
     [(1700000000000, Response 200 (Malformed [])),
      (1700000010000, NetworkError),
      (1700000030000, AbortError),
      (1700000059999, Response 200 (Malformed [])),
      (1700000060000, Response 503 (Malformed []))]"

text \<open>A client that believes the endpoint unreachable.\<close>

definition down_client :: client where
  "down_client = (TendrlClient defaults)\<lparr>connectionState := False\<rparr>"

text \<open>What \<^verbatim>\<open>publish({x: 1}, ["t"], "dev")\<close> builds at time 1.\<close>

definition tagged_message :: message where
  "tagged_message =
     \<lparr> msg_type = ''publish'', data = JObj [(''x'', JNum 1)], timestamp = ISOString 1,
       msg_context = Some \<lparr> tags = Some [''t''], wait = None \<rparr>, dest = Some ''dev'' \<rparr>"

text \<open>A client with a full queue, an empty offline store and no connection.\<close>

definition full_offline_client :: client where
  "full_offline_client =
     (small_client (map sample_message [0, 1, 2, 3]))\<lparr>storage := Some [], connectionState := False\<rparr>"

text \<open>The records of the four sample messages, as a sender tick spills them.\<close>

definition spilled_samples :: offline_store where
  "spilled_samples = map (\<lambda>i. spilled (te_store quiet_tick i) (sample_message i)) [0, 1, 2, 3]"

lemmas sample_defs =
  sample_message_def small_client_def TendrlClient_def defaults_def

section \<open>The adaptive interval\<close>






section \<open>What the operations keep\<close>

lemma same_setup_refl [simp]: "same_setup c c"
  by (simp add: same_setup_def)

lemma same_setup_trans: "same_setup a b \<Longrightarrow> same_setup b c \<Longrightarrow> same_setup a c"
  by (simp add: same_setup_def)

lemma checkConnectionState_keeps:
  "checkConnectionState c t fr = (c', known, rq)
   \<Longrightarrow> queue c' = queue c \<and> storage c' = storage c \<and> same_setup c c'"
  by (auto simp: checkConnectionState_def Let_def same_setup_def split: if_splits fetch_result.splits)

lemma processOfflineMessages_keeps:
  "processOfflineMessages c t ok env = (c', rq) \<Longrightarrow> queue c' = queue c \<and> same_setup c c'"
  by (auto simp: processOfflineMessages_def Let_def same_setup_def
           split: option.splits if_splits prod.splits)

lemma storeBatchOffline_fields [simp]:
  "queue (storeBatchOffline c ms env) = queue c"
  "maxQueueSize (storeBatchOffline c ms env) = maxQueueSize c"
  "maxBatchSize (storeBatchOffline c ms env) = maxBatchSize c"
  "minBatchInterval (storeBatchOffline c ms env) = minBatchInterval c"
  "maxBatchInterval (storeBatchOffline c ms env) = maxBatchInterval c"
  "senderInterval (storeBatchOffline c ms env) = senderInterval c"
  by (simp_all add: storeBatchOffline_def split: option.splits)

lemma getBatch_keeps:
  "getBatch c = (batch, c') \<Longrightarrow> same_setup c c' \<and> storage c' = storage c \<and> connectionState c' = connectionState c"
  by (auto simp: getBatch_def Let_def same_setup_def)

lemma getBatch_take:
  "fst (getBatch c) = take (min (length (queue c)) (maxBatchSize c)) (queue c)"
  by (simp add: getBatch_def Let_def)

lemma getBatch_drop:
  "queue (snd (getBatch c)) = drop (min (length (queue c)) (maxBatchSize c)) (queue c)"
  by (simp add: getBatch_def Let_def)

lemma getBatch_append: "getBatch c = (batch, c') \<Longrightarrow> batch @ queue c' = queue c"
  by (auto simp: getBatch_def Let_def)

lemma tickConnection_keeps:
  "tickConnection c e = (c', rq) \<Longrightarrow> queue c' = queue c \<and> same_setup c c'"
  apply (simp add: tickConnection_def Let_def split: if_splits prod.splits)
   apply (auto dest!: checkConnectionState_keeps processOfflineMessages_keeps simp: same_setup_def)
  done

lemma tickSend_queue:
  "tickSend c e = (c', rq, taken) \<Longrightarrow> taken @ queue c' = queue c \<and> same_setup c c'
      \<and> taken = fst (getBatch c) \<and> queue c' = queue (snd (getBatch c))"
  apply (simp add: tickSend_def Let_def split: if_splits prod.splits)
   apply (auto dest!: getBatch_append getBatch_keeps simp: same_setup_def getBatch_def Let_def)
  done

lemma tickCleanup_keeps:
  "queue (tickCleanup c e) = queue c \<and> same_setup c (tickCleanup c e)"
  by (auto simp: tickCleanup_def same_setup_def split: option.splits)

lemma senderTick_queue:
  assumes "senderTick c e = (c', rq, taken)"
  shows "taken @ queue c' = queue c \<and> same_setup c c'
         \<and> taken = fst (getBatch c) \<and> queue c' = queue (snd (getBatch c))"
proof -
  obtain c1 r1 where t1: "tickConnection c e = (c1, r1)" by (cases "tickConnection c e")
  obtain c2 r2 tk where t2: "tickSend c1 e = (c2, r2, tk)" by (cases "tickSend c1 e") auto
  from assms t1 t2 have eq: "c' = tickCleanup c2 e" "taken = tk"
    by (auto simp: senderTick_def Let_def)
  have k1: "queue c1 = queue c" "same_setup c c1" using tickConnection_keeps [OF t1] by auto
  have k2: "tk @ queue c2 = queue c1" "same_setup c1 c2" "tk = fst (getBatch c1)" "queue c2 = queue (snd (getBatch c1))"
    using tickSend_queue [OF t2] by auto
  have k3: "queue c' = queue c2" "same_setup c2 c'" using tickCleanup_keeps [of c2 e] eq by auto
  have gb: "fst (getBatch c1) = fst (getBatch c)" "queue (snd (getBatch c1)) = queue (snd (getBatch c))"
    using k1 by (auto simp: getBatch_def Let_def same_setup_def)
  show ?thesis using k1 k2 k3 eq gb by (auto intro: same_setup_trans)
qed

section \<open>The queue over a run\<close>

lemma publish_queue:
  assumes "publish c msg tgs entity waitResponse e = Inr (c', r, rq)"
  shows "same_setup c c'"
    and "queue c' = queue c @
           (case createMessage msg tgs entity waitResponse (pe_now e) of
              Inr message \<Rightarrow>
                (if \<not> waitResponse \<and> of_nat (length (queue c)) < maxQueueSize c
                 then [message] else [])
            | Inl err \<Rightarrow> [])"
  using assms
  by (auto simp: publish_def same_setup_def Let_def
           split: sum.splits if_splits option.splits prod.splits)

lemma exec_fifo:
  assumes "exec c x = (c', out, pushed)"
  shows "out @ queue c' = queue c @ pushed" and "same_setup c c'"
proof -
  show "out @ queue c' = queue c @ pushed"
  proof (cases x)
    case (Publish msg tgs entity waitResponse e)
    show ?thesis
    proof (cases "publish c msg tgs entity waitResponse e")
      case (Inl err)
      with assms Publish show ?thesis by simp
    next
      case (Inr res)
      obtain c1 r rq where res: "res = (c1, r, rq)" by (cases res)
      from publish_queue(2) [OF Inr [unfolded res]] assms Publish Inr res
      show ?thesis by auto
    qed
  next
    case GetBatch
    with assms show ?thesis by (auto simp: getBatch_def Let_def)
  next
    case (SenderTick e)
    with assms senderTick_queue [of c e] show ?thesis
      by (auto split: prod.splits)
  qed
  show "same_setup c c'"
  proof (cases x)
    case (Publish msg tgs entity waitResponse e)
    with assms publish_queue(1) [of c msg tgs entity waitResponse e] show ?thesis
      by (auto split: sum.splits)
  next
    case GetBatch
    with assms show ?thesis by (auto simp: getBatch_def Let_def same_setup_def)
  next
    case (SenderTick e)
    with assms senderTick_queue [of c e] show ?thesis
      by (auto split: prod.splits)
  qed
qed

lemma final_simps [simp]:
  "final c [] = c"
  "final c (x # xs) = final (fst (exec c x)) xs"
  by (simp_all add: final_def split: prod.splits)

lemma batches_simps [simp]:
  "batches c [] = []"
  "batches c (x # xs) = fst (snd (exec c x)) # batches (fst (exec c x)) xs"
  by (simp_all add: batches_def split: prod.splits)

lemma accepted_simps [simp]:
  "accepted c [] = []"
  "accepted c (x # xs) = snd (snd (exec c x)) @ accepted (fst (exec c x)) xs"
  by (simp_all add: accepted_def split: prod.splits)

lemma run_fifo:
  "concat (batches c xs) @ queue (final c xs) = queue c @ accepted c xs"
proof (induction xs arbitrary: c)
  case Nil
  show ?case by simp
next
  case (Cons x xs)
  obtain c1 out pushed where ex: "exec c x = (c1, out, pushed)" by (cases "exec c x") auto
  have "concat (batches c (x # xs)) @ queue (final c (x # xs))
        = out @ concat (batches c1 xs) @ queue (final c1 xs)"
    using ex by simp
  also have "\<dots> = out @ queue c1 @ accepted c1 xs" using Cons.IH [of c1] by simp
  also have "\<dots> = queue c @ pushed @ accepted c1 xs" using exec_fifo(1) [OF ex] by simp
  also have "\<dots> = queue c @ accepted c (x # xs)" using ex by simp
  finally show ?case .
qed

lemma final_same_setup: "same_setup c (final c xs)"
proof (induction xs arbitrary: c)
  case Nil
  show ?case by simp
next
  case (Cons x xs)
  obtain c1 out pushed where ex: "exec c x = (c1, out, pushed)" by (cases "exec c x") auto
  from exec_fifo(2) [OF ex] Cons.IH [of c1] ex show ?case
    by (auto intro: same_setup_trans)
qed

lemma exec_bounded:
  assumes "maxQueueSize c = of_nat n" "queue_bounded c" "exec c x = (c', out, pushed)"
  shows "queue_bounded c'"
proof -
  have fifo: "out @ queue c' = queue c @ pushed" and ss: "same_setup c c'"
    using exec_fifo [OF assms(3)] by auto
  have len: "length (queue c) \<le> n"
    using assms(1,2) by (simp add: queue_bounded_def)
  have "length pushed \<le> n - length (queue c)"
    using assms(1,3) by (cases x) (auto split: sum.splits prod.splits if_splits)
  moreover have "length (queue c') \<le> length (queue c) + length pushed"
    using arg_cong [OF fifo, of length] by simp
  ultimately have "length (queue c') \<le> n" using len by simp
  then show ?thesis using assms(1) ss by (simp add: queue_bounded_def same_setup_def)
qed

lemma run_bounded:
  "maxQueueSize c = of_nat n \<Longrightarrow> queue_bounded c \<Longrightarrow> queue_bounded (final c xs)"
proof (induction xs arbitrary: c)
  case Nil
  then show ?case by simp
next
  case (Cons x xs)
  obtain c1 out pushed where ex: "exec c x = (c1, out, pushed)" by (cases "exec c x") auto
  have b: "queue_bounded c1" using exec_bounded [OF Cons.prems ex] .
  have m: "maxQueueSize c1 = of_nat n"
    using exec_fifo(2) [OF ex] Cons.prems(1) by (simp add: same_setup_def)
  from Cons.IH [OF m b] ex show ?case by simp
qed

lemma distinct_concat_nth_disjoint:
  "distinct (concat bs) \<Longrightarrow> i < j \<Longrightarrow> j < length bs \<Longrightarrow> set (bs ! i) \<inter> set (bs ! j) = {}"
proof (induction bs arbitrary: i j)
  case Nil
  then show ?case by simp
next
  case (Cons b bs)
  show ?case
  proof (cases i)
    case 0
    then obtain j' where j: "j = Suc j'" using Cons.prems(2) by (cases j) auto
    have "bs ! j' \<in> set bs" using Cons.prems(3) j by simp
    then have "set (bs ! j') \<subseteq> set (concat bs)" by auto
    with Cons.prems(1) 0 j show ?thesis by auto
  next
    case (Suc i')
    then obtain j' where j: "j = Suc j'" using Cons.prems(2) by (cases j) auto
    from Cons.IH [of i' j'] Cons.prems Suc j show ?thesis by simp
  qed
qed

text \<open>
  C2. \<^verbatim>\<open>getBatch\<close> removes and returns exactly the first
  \<^verbatim>\<open>min(length, maxBatchSize)\<close> messages of the queue, in order, and leaves the rest in
  place, in order, changing nothing else. Over any run of \<^verbatim>\<open>publish\<close>, \<^verbatim>\<open>getBatch\<close> and
  sender ticks, the batches taken, concatenated in the order taken and followed by what is
  still queued, are the initial queue followed by the accepted messages in the order they
  were enqueued. When these messages are pairwise different (each \<^verbatim>\<open>publish\<close> builds a new
  object), no message occurs twice in the batches, and two different batches share none.
\<close>

theorem C2_getBatch_fifo:
  "snd (getBatch c) = c\<lparr>queue := drop (min (length (queue c)) (maxBatchSize c)) (queue c)\<rparr>
   \<and> fst (getBatch c) = take (min (length (queue c)) (maxBatchSize c)) (queue c)
   \<and> concat (batches c xs) @ queue (final c xs) = queue c @ accepted c xs
   \<and> (distinct (queue c @ accepted c xs)
        \<longrightarrow> distinct (concat (batches c xs))
            \<and> (\<forall>i j. i < j \<and> j < length (batches c xs)
                  \<longrightarrow> set (batches c xs ! i) \<inter> set (batches c xs ! j) = {}))"
proof (intro conjI impI)
  assume d: "distinct (queue c @ accepted c xs)"
  then have "distinct (concat (batches c xs) @ queue (final c xs))"
    by (simp only: run_fifo)
  then show dc: "distinct (concat (batches c xs))" by simp
  show "\<forall>i j. i < j \<and> j < length (batches c xs)
                  \<longrightarrow> set (batches c xs ! i) \<inter> set (batches c xs ! j) = {}"
    using distinct_concat_nth_disjoint [OF dc] by blast
qed (simp_all add: getBatch_def Let_def run_fifo)

lemma sample_run_batches:
  "batches (batch_client []) sample_run
     = [[], [], [], [text_message ''a'' 1, text_message ''b'' 2], [],
        [text_message ''c'' 3, text_message ''d'' 4], []]"
  by (simp add: sample_run_def batch_client_def sample_defs at_time_def text_message_def
        publish_def createMessage_def getBatch_def Let_def)

theorem C2_getBatch_fifo_witness:
  "distinct (queue (batch_client []) @ accepted (batch_client []) sample_run)
   \<and> concat (batches (batch_client []) sample_run)
       = [text_message ''a'' 1, text_message ''b'' 2, text_message ''c'' 3, text_message ''d'' 4]
   \<and> queue (final (batch_client []) sample_run) = []
   \<and> accepted (batch_client []) sample_run = concat (batches (batch_client []) sample_run)
   \<and> distinct (concat (batches (batch_client []) sample_run))
   \<and> set (batches (batch_client []) sample_run ! 3) \<inter> set (batches (batch_client []) sample_run ! 5) = {}"
proof -
  have b: "concat (batches (batch_client []) sample_run)
       = [text_message ''a'' 1, text_message ''b'' 2, text_message ''c'' 3, text_message ''d'' 4]"
    by (simp add: sample_run_batches)
  have f: "queue (final (batch_client []) sample_run) = []"
    by (simp add: sample_run_def batch_client_def sample_defs at_time_def
        publish_def createMessage_def getBatch_def Let_def)
  have q: "queue (batch_client []) = []" by (simp add: batch_client_def sample_defs)
  have l: "length (batches (batch_client []) sample_run) = 7" by (simp add: sample_run_batches)
  from C2_getBatch_fifo [of "batch_client []" sample_run] b f q
  have a: "accepted (batch_client []) sample_run = concat (batches (batch_client []) sample_run)"
    by simp
  have d: "distinct (queue (batch_client []) @ accepted (batch_client []) sample_run)"
    by (simp add: a b q text_message_def)
  from C2_getBatch_fifo [of "batch_client []" sample_run] d l
  have "distinct (concat (batches (batch_client []) sample_run))"
    and "set (batches (batch_client []) sample_run ! 3) \<inter> set (batches (batch_client []) sample_run ! 5) = {}"
    by simp_all
  with a b d f show ?thesis by simp
qed

lemma createMessage_valid:
  assumes "typeof msg = ''string'' \<or> (typeof msg = ''object'' \<and> msg \<noteq> VNull)"
  shows "createMessage msg tgs entity w now =
           Inr \<lparr> msg_type = ''publish'', data = payload msg, timestamp = ISOString now,
                 msg_context =
                   (if length tgs > 0 \<or> w \<or> entity \<noteq> []
                    then Some \<lparr> tags = (if length tgs > 0 then Some tgs else None),
                                wait = (if w then Some True else None) \<rparr>
                    else None),
                 dest = (if entity \<noteq> [] then Some entity else None) \<rparr>"
  using assms by (cases msg) (auto simp: createMessage_def)

text \<open>
  C4. For a valid message (a string, or an object other than \<^verbatim>\<open>null\<close>) and
  \<^verbatim>\<open>waitResponse = false\<close>, \<^verbatim>\<open>publish\<close> does not throw, returns \<^verbatim>\<open>undefined\<close> and issues
  no request. With room in the queue the new client is the old one with the message built
  from the argument appended: the length grows by exactly one. With a full queue and no
  offline store the client is unchanged.
\<close>

theorem C4_publish_valid_never_throws:
  assumes "typeof msg = ''string'' \<or> (typeof msg = ''object'' \<and> msg \<noteq> VNull)"
  shows "\<exists>c' message.
           publish c msg tgs entity False e = Inr (c', ReturnsUndefined, [])
         \<and> createMessage msg tgs entity False (pe_now e) = Inr message
         \<and> (of_nat (length (queue c)) < maxQueueSize c
              \<longrightarrow> c' = c\<lparr>queue := queue c @ [message]\<rparr>
                  \<and> length (queue c') = length (queue c) + 1)
         \<and> (\<not> of_nat (length (queue c)) < maxQueueSize c \<and> storage c = None \<longrightarrow> c' = c)"
  using createMessage_valid [OF assms, of tgs entity False "pe_now e"]
  by (cases "storage c") (auto simp: publish_def)

theorem C4_publish_valid_never_throws_witness:
  "publish (small_client []) (VString ''a'') [] [] False (at_time 1)
     = Inr (small_client [text_message ''a'' 1], ReturnsUndefined, [])
   \<and> publish (small_client (map sample_message [0, 1, 2, 3])) (VObject [(''x'', JNum 1)])
         [''t''] ''dev'' False (at_time 9)
     = Inr (small_client (map sample_message [0, 1, 2, 3]), ReturnsUndefined, [])"
proof -
  have v1: "typeof (VString ''a'') = ''string'' \<or> (typeof (VString ''a'') = ''object'' \<and> VString ''a'' \<noteq> VNull)"
    by simp
  have v2: "typeof (VObject [(''x'', JNum 1)]) = ''string''
            \<or> (typeof (VObject [(''x'', JNum 1)]) = ''object'' \<and> VObject [(''x'', JNum 1)] \<noteq> VNull)"
    by simp
  from C4_publish_valid_never_throws [OF v1, of "small_client []" "[]" "[]" "at_time 1"]
  have 1: "publish (small_client []) (VString ''a'') [] [] False (at_time 1)
     = Inr (small_client [text_message ''a'' 1], ReturnsUndefined, [])"
    by (auto simp: sample_defs at_time_def text_message_def createMessage_def)
  from C4_publish_valid_never_throws [OF v2, of "small_client (map sample_message [0, 1, 2, 3])" "[''t'']" "''dev''" "at_time 9"]
  have 2: "publish (small_client (map sample_message [0, 1, 2, 3])) (VObject [(''x'', JNum 1)])
         [''t''] ''dev'' False (at_time 9)
     = Inr (small_client (map sample_message [0, 1, 2, 3]), ReturnsUndefined, [])"
    by (auto simp: sample_defs)
  from 1 2 show ?thesis by simp
qed

lemma storeOffline_record:
  assumes "se_ok e"
  shows "storeOffline st e message =
           filter (\<lambda>r. stored_id r \<noteq> OfflineId (se_now e) (se_random e)) st
           @ [stored_record (se_now e) (OfflineId (se_now e) (se_random e))
                (data message) (context_tags message) 3600]"
  using assms by (simp add: storeOffline_def storage_store_def Let_def)

text \<open>
  C3, as stated, fails for a capacity that is not a count. The constructor stores
  \<^verbatim>\<open>maxQueueSize\<close> as given and \<^verbatim>\<open>publish\<close> pushes while \<^verbatim>\<open>queue.length < maxQueueSize\<close>:
  with \<^verbatim>\<open>maxQueueSize = -1\<close> the new client's empty queue is already longer than the capacity,
  and with \<^verbatim>\<open>maxQueueSize = 2.5\<close> three messages are accepted.
\<close>

theorem C3_capacity_not_a_count_counterexample:
  "\<not> queue_bounded (TendrlClient (defaults\<lparr>cfg_maxQueueSize := - 1\<rparr>))
   \<and> queue (final (TendrlClient (defaults\<lparr>cfg_maxQueueSize := 5 / 2\<rparr>)) three_publishes)
       = [text_message ''a'' 1, text_message ''b'' 2, text_message ''c'' 3]
   \<and> \<not> queue_bounded (final (TendrlClient (defaults\<lparr>cfg_maxQueueSize := 5 / 2\<rparr>)) three_publishes)"
proof -
  have q: "queue (final (TendrlClient (defaults\<lparr>cfg_maxQueueSize := 5 / 2\<rparr>)) three_publishes)
       = [text_message ''a'' 1, text_message ''b'' 2, text_message ''c'' 3]"
    by (simp add: three_publishes_def TendrlClient_def defaults_def at_time_def text_message_def
          publish_def createMessage_def)
  have m: "maxQueueSize (final (TendrlClient (defaults\<lparr>cfg_maxQueueSize := 5 / 2\<rparr>)) three_publishes)
       = 5 / 2"
    using final_same_setup [of "TendrlClient (defaults\<lparr>cfg_maxQueueSize := 5 / 2\<rparr>)" three_publishes]
    by (simp add: same_setup_def TendrlClient_def)
  show ?thesis
    by (simp add: queue_bounded_def q m) (simp add: TendrlClient_def)
qed

text \<open>
  C3 (amended). When \<^verbatim>\<open>maxQueueSize\<close> is a non-negative whole number, the queue never holds
  more than \<^verbatim>\<open>maxQueueSize\<close> messages: the bound holds for a new client, is kept by every
  \<^verbatim>\<open>publish\<close>, \<^verbatim>\<open>getBatch\<close> and sender tick, and so holds after every run from construction.
  Whatever the capacity, a \<^verbatim>\<open>publish\<close> on a queue that has reached it leaves the queue as it
  is; without an offline store the client is unchanged, with one the message goes to the
  store (and is there when the write succeeds).
\<close>

theorem C3_queue_bounded_for_whole_capacity:
  assumes "cfg_maxQueueSize cfg = of_nat n" and "maxQueueSize c = of_nat k"
  shows "queue_bounded (TendrlClient cfg)
   \<and> queue_bounded (final (TendrlClient cfg) xs)
   \<and> (queue_bounded c \<longrightarrow> queue_bounded (fst (exec c x)))
   \<and> (maxQueueSize c' \<le> of_nat (length (queue c'))
        \<and> createMessage msg tgs entity False (pe_now e) = Inr message
        \<longrightarrow> (\<exists>c''. publish c' msg tgs entity False e = Inr (c'', ReturnsUndefined, [])
                 \<and> queue c'' = queue c'
                 \<and> (storage c' = None \<longrightarrow> c'' = c')
                 \<and> (\<forall>st. storage c' = Some st
                       \<longrightarrow> c'' = c'\<lparr>storage := Some (storeOffline st (pe_store e) message)\<rparr>
                           \<and> (se_ok (pe_store e)
                                \<longrightarrow> (\<exists>r \<in> set (storeOffline st (pe_store e) message).
                                       stored_data r = JSON_stringify (data message))))))"
proof (intro conjI impI)
  have m0: "maxQueueSize (TendrlClient cfg) = of_nat n"
    using assms(1) by (simp add: TendrlClient_def)
  show b0: "queue_bounded (TendrlClient cfg)"
    using assms(1) by (simp add: queue_bounded_def TendrlClient_def)
  show "queue_bounded (final (TendrlClient cfg) xs)"
    using run_bounded [OF m0 b0] .
next
  assume "queue_bounded c"
  then show "queue_bounded (fst (exec c x))"
    using exec_bounded [OF assms(2), of x] by (cases "exec c x") auto
next
  assume a: "maxQueueSize c' \<le> of_nat (length (queue c'))
        \<and> createMessage msg tgs entity False (pe_now e) = Inr message"
  show "\<exists>c''. publish c' msg tgs entity False e = Inr (c'', ReturnsUndefined, [])
                 \<and> queue c'' = queue c'
                 \<and> (storage c' = None \<longrightarrow> c'' = c')
                 \<and> (\<forall>st. storage c' = Some st
                       \<longrightarrow> c'' = c'\<lparr>storage := Some (storeOffline st (pe_store e) message)\<rparr>
                           \<and> (se_ok (pe_store e)
                                \<longrightarrow> (\<exists>r \<in> set (storeOffline st (pe_store e) message).
                                       stored_data r = JSON_stringify (data message))))"
  proof (cases "storage c'")
    case None
    with a show ?thesis by (simp add: publish_def)
  next
    case (Some st)
    have "se_ok (pe_store e) \<Longrightarrow> \<exists>r \<in> set (storeOffline st (pe_store e) message).
                                       stored_data r = JSON_stringify (data message)"
      by (simp add: storeOffline_record stored_record_def)
    with a Some show ?thesis by (simp add: publish_def)
  qed
qed

theorem C3_queue_bounded_for_whole_capacity_witness:
  "queue_bounded (small_client (map sample_message [0, 1, 2, 3]))
   \<and> queue_bounded (fst (exec (small_client (map sample_message [0, 1, 2, 3])) GetBatch))
   \<and> queue_bounded (final (TendrlClient (defaults\<lparr>cfg_maxQueueSize := 4\<rparr>)) five_publishes)
   \<and> queue (final (TendrlClient (defaults\<lparr>cfg_maxQueueSize := 4\<rparr>)) five_publishes)
       = [text_message ''a'' 1, text_message ''b'' 2, text_message ''c'' 3, text_message ''d'' 4]
   \<and> publish (small_client (map sample_message [0, 1, 2, 3])) (VString ''e'') [] [] False (at_time 5)
       = Inr (small_client (map sample_message [0, 1, 2, 3]), ReturnsUndefined, [])"
proof -
  let ?full = "small_client (map sample_message [0, 1, 2, 3])"
  have c4: "cfg_maxQueueSize (defaults\<lparr>cfg_maxQueueSize := 4\<rparr>) = of_nat 4" by simp
  have m4: "maxQueueSize ?full = of_nat 4" by (simp add: sample_defs)
  have b: "queue_bounded ?full" by (simp add: queue_bounded_def sample_defs)
  have m: "maxQueueSize ?full \<le> of_nat (length (queue ?full))
           \<and> createMessage (VString ''e'') [] [] False (pe_now (at_time 5)) = Inr (text_message ''e'' 5)"
    by (simp add: sample_defs createMessage_def at_time_def text_message_def)
  have n: "storage ?full = None" by (simp add: sample_defs)
  have q: "queue (final (TendrlClient (defaults\<lparr>cfg_maxQueueSize := 4\<rparr>)) five_publishes)
       = [text_message ''a'' 1, text_message ''b'' 2, text_message ''c'' 3, text_message ''d'' 4]"
    by (simp add: five_publishes_def sample_defs at_time_def text_message_def
          publish_def createMessage_def)
  note inst = C3_queue_bounded_for_whole_capacity
    [OF c4 m4, where xs = five_publishes and x = GetBatch and c' = ?full
       and msg = "VString ''e''" and tgs = "[]" and entity = "[]" and e = "at_time 5"
       and message = "text_message ''e'' 5"]
  from inst b have 1: "queue_bounded (fst (exec ?full GetBatch))" by blast
  from inst have 2: "queue_bounded (final (TendrlClient (defaults\<lparr>cfg_maxQueueSize := 4\<rparr>)) five_publishes)"
    by blast
  from inst m n have 3: "publish ?full (VString ''e'') [] [] False (at_time 5)
       = Inr (?full, ReturnsUndefined, [])"
    by auto
  from b 1 2 3 q show ?thesis by simp
qed

section \<open>Offline replay\<close>

lemma convertStored_ids: "snd (convertStored now page) = map stored_id page"
  by (induction page) (auto split: prod.splits option.splits)

lemma convertStored_messages:
  "fst (convertStored now page) = List.map_filter (parseStored now) page"
  by (induction page) (auto simp: List.map_filter_simps split: prod.splits option.splits)

lemma getAllMessages_subset: "set (getAllMessages st now limit) \<subseteq> set st"
proof -
  let ?live = "sort_key (\<lambda>r. (expires_at r, key_text (stored_id r)))
                 (filter (\<lambda>r. now \<le> expires_at r) st)"
  have "set (getAllMessages st now limit) \<subseteq> set ?live"
    using set_take_subset [of limit ?live] by (simp add: getAllMessages_def Let_def)
  then show ?thesis by auto
qed

lemma deleteMessages_subset: "set (deleteMessages st ids) \<subseteq> set st"
  by (auto simp: deleteMessages_def)

lemma deleteMessages_gone: "r \<in> set page \<Longrightarrow> r \<notin> set (deleteMessages st (map stored_id page))"
  by (auto simp: deleteMessages_def)

text \<open>The ways a turn of the replay loop ends, by the page it read.\<close>

lemma replayPage_cases:
  fixes st e
  defines "page \<equiv> getAllMessages st (rp_now e) 50"
  defines "msgs \<equiv> fst (convertStored (rp_now e) page)"
  shows "replayPage st e =
           (if \<not> rp_readOk e \<or> page = [] then (st, [], None)
            else if msgs = []
                 then (if rp_deleteOk e then deleteMessages st (map stored_id page) else st,
                       [], None)
            else if \<not> fst (publishMessages msgs (rp_send e))
                 then (st, [PostMessages msgs], None)
            else if rp_deleteOk e
                 then (deleteMessages st (map stored_id page), [PostMessages msgs],
                       Some (length msgs))
            else (st, [PostMessages msgs], None))"
  using convertStored_ids [of "rp_now e" "getAllMessages st (rp_now e) 50"]
  by (auto simp: replayPage_def Let_def page_def msgs_def publishMessages_def split: prod.splits)

lemma replayPage_subset: "set (fst (replayPage st e)) \<subseteq> set st"
  by (auto simp: replayPage_cases deleteMessages_def)

lemma replayLoop_turn:
  assumes "processed < totalCount"
  shows "replayLoop env k processed totalCount st =
           (case replayPage st (env k) of
              (st', reqs, None) \<Rightarrow> (st', reqs)
            | (st', reqs, Some n) \<Rightarrow>
                (let (st'', reqs') = replayLoop env (Suc k) (processed + n) totalCount st'
                 in (st'', reqs @ reqs')))"
  by (subst replayLoop.simps) (simp add: assms)

lemma replayLoop_done:
  "\<not> processed < totalCount \<Longrightarrow> replayLoop env k processed totalCount st = (st, [])"
  by (subst replayLoop.simps) simp

lemma replayLoop_subset: "set (fst (replayLoop env k processed totalCount st)) \<subseteq> set st"
proof (induction env k processed totalCount st rule: replayLoop.induct)
  case (1 env k processed totalCount st)
  show ?case
  proof (cases "processed < totalCount")
    case False
    then show ?thesis by (simp add: replayLoop_done)
  next
    case True
    obtain st' reqs go where rp: "replayPage st (env k) = (st', reqs, go)"
      by (cases "replayPage st (env k)") auto
    have sub: "set st' \<subseteq> set st" using replayPage_subset [of st "env k"] rp by simp
    show ?thesis
    proof (cases go)
      case None
      with True rp sub show ?thesis by (simp add: replayLoop_turn)
    next
      case (Some n)
      have "set (fst (replayLoop env (Suc k) (processed + n) totalCount st')) \<subseteq> set st'"
        using "1.IH" [OF True rp [symmetric] refl Some] .
      with True rp Some sub show ?thesis
        by (auto simp: replayLoop_turn split: prod.splits)
    qed
  qed
qed

lemma processOfflineMessages_storage:
  assumes "storage c = Some st"
  shows "processOfflineMessages c now True env =
           (if getMessageCount st now = 0 then (c, [])
            else (c\<lparr>storage := Some (fst (replayLoop env 0 0 (getMessageCount st now) st))\<rparr>,
                  snd (replayLoop env 0 0 (getMessageCount st now) st)))"
  using assms by (simp add: processOfflineMessages_def Let_def split: prod.splits)

text \<open>
  What the code does in a turn, in general. A failed send, or a rejected delete, ends the
  run with the store as it was, whatever the page held. A successful send followed by a
  successful delete removes the whole page. A page without a sound record is deleted
  without a send, and the run ends there too.
\<close>

lemma replay_turn_outcomes:
  assumes turn: "processed < totalCount" and rd: "rp_readOk (env k)"
    and page_def: "page = getAllMessages st (rp_now (env k)) 50"
    and msgs_def: "msgs = fst (convertStored (rp_now (env k)) page)"
  shows "msgs \<noteq> [] \<Longrightarrow> \<not> fst (publishMessages msgs (rp_send (env k)))
           \<Longrightarrow> replayLoop env k processed totalCount st = (st, [PostMessages msgs])"
    and "msgs \<noteq> [] \<Longrightarrow> fst (publishMessages msgs (rp_send (env k))) \<Longrightarrow> \<not> rp_deleteOk (env k)
           \<Longrightarrow> replayLoop env k processed totalCount st = (st, [PostMessages msgs])"
    and "msgs \<noteq> [] \<Longrightarrow> fst (publishMessages msgs (rp_send (env k))) \<Longrightarrow> rp_deleteOk (env k)
           \<Longrightarrow> r \<in> set page \<Longrightarrow> r \<notin> set (fst (replayLoop env k processed totalCount st))"
    and "msgs = [] \<Longrightarrow> rp_deleteOk (env k)
           \<Longrightarrow> replayLoop env k processed totalCount st
                 = (deleteMessages st (map stored_id page), [])"
proof -
  show "replayLoop env k processed totalCount st = (st, [PostMessages msgs])"
    if "msgs \<noteq> []" "\<not> fst (publishMessages msgs (rp_send (env k)))"
    using that turn rd by (auto simp: replayLoop_turn replayPage_cases page_def msgs_def)
  show "replayLoop env k processed totalCount st = (st, [PostMessages msgs])"
    if "msgs \<noteq> []" "fst (publishMessages msgs (rp_send (env k)))" "\<not> rp_deleteOk (env k)"
    using that turn rd by (auto simp: replayLoop_turn replayPage_cases page_def msgs_def)
  show "r \<notin> set (fst (replayLoop env k processed totalCount st))"
    if a: "msgs \<noteq> []" "fst (publishMessages msgs (rp_send (env k)))" "rp_deleteOk (env k)"
      and r: "r \<in> set page"
  proof -
    have p: "replayPage st (env k)
        = (deleteMessages st (map stored_id page), [PostMessages msgs], Some (length msgs))"
      using a rd by (auto simp: replayPage_cases page_def msgs_def)
    have "set (fst (replayLoop env k processed totalCount st))
            \<subseteq> set (deleteMessages st (map stored_id page))"
      using replayLoop_subset [of env "Suc k" "processed + length msgs" totalCount
              "deleteMessages st (map stored_id page)"] turn p
      by (auto simp: replayLoop_turn split: prod.splits)
    then show ?thesis using deleteMessages_gone [OF r, of st] by blast
  qed
  show "replayLoop env k processed totalCount st = (deleteMessages st (map stored_id page), [])"
    if "msgs = []" "rp_deleteOk (env k)"
    using that turn rd
    by (auto simp: replayLoop_turn replayPage_cases page_def msgs_def deleteMessages_def)
qed

lemma parse_samples:
  "parseStored now good_record = Some (replayed_good now)"
  "parseStored now bad_record = None"
  by (simp_all add: parseStored_def good_record_def bad_record_def replayed_good_def)

lemma sample_page:
  "getAllMessages [good_record, bad_record] 50000 50 = [good_record, bad_record]"
  "getAllMessages [bad_record] 50000 50 = [bad_record]"
  "getMessageCount [good_record, bad_record] 50000 = 2"
  "getMessageCount [bad_record] 50000 = 1"
  by (simp_all add: getAllMessages_def getMessageCount_def good_record_def bad_record_def)

text \<open>
  C5. The code pushes the id of a record that fails to deserialize on
  \<^verbatim>\<open>messageIdsToDelete\<close> (under the comment "Delete corrupted message"), but deletes these
  ids only after a successful send of the page's batch. With a sound and a corrupted
  record in the store and a send that fails, the replay sends the one batch, breaks and
  leaves the store as it was: the corrupted record is still there. In the branch for a
  page without a sound record the same code does delete the corrupted record, without a
  send.
\<close>

theorem C5_corrupted_record_kept_on_failed_send:
  "parseStored 50000 bad_record = None
   \<and> storage (offline_client [good_record, bad_record]) = Some [good_record, bad_record]
   \<and> processOfflineMessages (offline_client [good_record, bad_record]) 50000 True
        (replay_all NetworkError)
       = (offline_client [good_record, bad_record], [PostMessages [replayed_good 50000]])
   \<and> processOfflineMessages (offline_client [bad_record]) 50000 True (replay_all NetworkError)
       = (offline_client [], [])"
proof -
  have "replayPage [good_record, bad_record] (replay_all NetworkError 0)
          = ([good_record, bad_record], [PostMessages [replayed_good 50000]], None)"
    by (simp add: replayPage_cases replay_all_def sample_page parse_samples publishMessages_def)
  then have "replayLoop (replay_all NetworkError) 0 0 2 [good_record, bad_record]
          = ([good_record, bad_record], [PostMessages [replayed_good 50000]])"
    by (simp add: replayLoop_turn)
  then have 1: "processOfflineMessages (offline_client [good_record, bad_record]) 50000 True
                (replay_all NetworkError)
       = (offline_client [good_record, bad_record], [PostMessages [replayed_good 50000]])"
    by (simp add: processOfflineMessages_storage [of _ "[good_record, bad_record]"]
          sample_page offline_client_def)
  have "replayPage [bad_record] (replay_all NetworkError 0) = ([], [], None)"
    by (simp add: replayPage_cases replay_all_def sample_page parse_samples deleteMessages_def)
  then have "replayLoop (replay_all NetworkError) 0 0 1 [bad_record] = ([], [])"
    by (simp add: replayLoop_turn)
  then have 2: "processOfflineMessages (offline_client [bad_record]) 50000 True
                (replay_all NetworkError) = (offline_client [], [])"
    by (simp add: processOfflineMessages_storage [of _ "[bad_record]"]
          sample_page offline_client_def)
  from 1 2 show ?thesis by (simp add: parse_samples offline_client_def)
qed

section \<open>The period of the sender\<close>

lemma startSender_run_period:
  "senderInterval (final (startSender c) xs) = Some (calculateBatchInterval c)"
  using final_same_setup [of "startSender c" xs]
  by (simp add: same_setup_def startSender_def)

lemma loaded_run_queue:
  "queue (final (startSender one_by_one) loaded_run) = [text_message ''b'' 2, text_message ''c'' 3]"
  by (simp add: loaded_run_def one_by_one_def startSender_def TendrlClient_def defaults_def
        at_time_def text_message_def publish_def createMessage_def quiet_tick_def
        senderTick_def tickConnection_def tickSend_def tickCleanup_def getBatch_def
        publishMessages_def Let_def)

text \<open>
  C6. The source reads \<^verbatim>\<open>calculateBatchInterval()\<close> once, as the delay argument of
  \<^verbatim>\<open>setInterval\<close> in \<^verbatim>\<open>startSender\<close>; no tick and no \<^verbatim>\<open>publish\<close> changes the timer
  (\<open>startSender_run_period\<close>). Started on an empty queue of capacity four, with batches
  of one, after three messages and one tick the load is 50 and \<^verbatim>\<open>calculateBatchInterval()\<close>
  is 550 ms, while the timer still fires every 100 ms: the period is not re-evaluated.
\<close>

theorem C6_sender_period_fixed_at_start:
  "senderInterval (final (startSender one_by_one) loaded_run) = Some 100
   \<and> queueLoad (final (startSender one_by_one) loaded_run) = 50
   \<and> calculateBatchInterval (final (startSender one_by_one) loaded_run) = 550"
proof -
  let ?c = "final (startSender one_by_one) loaded_run"
  have s: "same_setup (startSender one_by_one) ?c" by (rule final_same_setup)
  have i: "calculateBatchInterval one_by_one = 100"
    by (simp add: calculateBatchInterval_def queueLoad_def one_by_one_def TendrlClient_def defaults_def)
  have p: "senderInterval ?c = Some 100"
    using startSender_run_period [of one_by_one loaded_run] i by simp
  have m: "maxQueueSize ?c = 4" "minBatchInterval ?c = 100" "maxBatchInterval ?c = 1000"
    using s by (simp_all add: same_setup_def startSender_def one_by_one_def TendrlClient_def defaults_def)
  have l: "queueLoad ?c = 50" by (simp add: queueLoad_def m loaded_run_queue)
  have "calculateBatchInterval ?c = 550" by (simp add: calculateBatchInterval_def l m)
  with p l show ?thesis by simp
qed

section \<open>Heartbeat validation\<close>

lemma heartbeat_field_cases:
  "heartbeat_field name v d =
     (if negative_field v then Inl (Error (name @ '' must be non-negative''))
      else Inr (d @ provided name v))"
  by (simp add: heartbeat_field_def negative_field_def provided_def split: option.splits)

text \<open>
  C7. When a provided field of the heartbeat is negative, \<^verbatim>\<open>sendHeartbeat\<close> fails with the
  error \<^verbatim>\<open>"<field> must be non-negative"\<close> and has issued no request. When no provided
  field is negative it raises no error and sends at once: exactly one POST of the
  heartbeat message (its data the provided fields), whose reply it returns.
\<close>

theorem C7_heartbeat_validation:
  "(negative_field (mem_free args) \<or> negative_field (mem_total args)
      \<or> negative_field (disk_free args) \<or> negative_field (disk_size args)
     \<longrightarrow> (\<exists>field. sendHeartbeat args now fr = (Inl (Error (field @ '' must be non-negative'')), [])))
   \<and> (\<not> (negative_field (mem_free args) \<or> negative_field (mem_total args)
          \<or> negative_field (disk_free args) \<or> negative_field (disk_size args))
     \<longrightarrow> sendHeartbeat args now fr
           = (Inr (fst (publishMessage (heartbeat_of args now) fr)),
              [PostMessage (heartbeat_of args now)]))"
  by (auto simp: sendHeartbeat_def heartbeat_field_cases heartbeat_of_def publishMessage_def Let_def)

theorem C7_heartbeat_validation_witness:
  "(\<exists>field. sendHeartbeat low_memory 1700000000123 (Response 200 (Stringified (JStr ''id'')))
              = (Inl (Error (field @ '' must be non-negative'')), []))
   \<and> sendHeartbeat sound_memory 1700000000123 (Response 200 (Stringified (JStr ''id'')))
       = (Inr (Some (JStr ''id'')),
          [PostMessage \<lparr> msg_type = ''heartbeat'',
                         data = JObj [(''mem_free'', JNum 0), (''mem_total'', JNum 8192)],
                         timestamp = ISOSeconds 1700000000, msg_context = None, dest = None \<rparr>])"
  using C7_heartbeat_validation [of low_memory 1700000000123 "Response 200 (Stringified (JStr ''id''))"]
        C7_heartbeat_validation [of sound_memory 1700000000123 "Response 200 (Stringified (JStr ''id''))"]
  by (simp add: low_memory_def sound_memory_def negative_field_def heartbeat_of_def provided_def
        publishMessage_def)

section \<open>The connection monitor\<close>

lemma checkConnectionState_cases:
  "checkConnectionState c t fr =
     (if t < lastConnectionCheck c + 30000 then (c, connectionState c, [])
      else (c\<lparr>lastConnectionCheck := t, connectionState := probe_ok fr\<rparr>, probe_ok fr, [HeadStatus]))"
  by (simp add: checkConnectionState_def probe_ok_def Let_def split: fetch_result.splits)

lemma probes_spaced: "spaced (lastConnectionCheck c) (probes c calls)"
proof (induction calls arbitrary: c)
  case Nil
  show ?case by simp
next
  case (Cons call calls)
  obtain t fr where call: "call = (t, fr)" by (cases call)
  show ?case
  proof (cases "t < lastConnectionCheck c + 30000")
    case True
    with call Cons.IH [of c] show ?thesis by (simp add: checkConnectionState_cases)
  next
    case False
    with call Cons.IH [of "c\<lparr>lastConnectionCheck := t, connectionState := probe_ok fr\<rparr>"]
    show ?thesis by (simp add: checkConnectionState_cases)
  qed
qed

lemma spaced_lower: "spaced lo ps \<Longrightarrow> p \<in> set ps \<Longrightarrow> lo + 30000 \<le> p"
proof (induction ps arbitrary: lo)
  case Nil
  then show ?case by simp
next
  case (Cons q ps)
  show ?case
  proof (cases "p = q")
    case True
    with Cons.prems show ?thesis by simp
  next
    case False
    with Cons.prems have "spaced q ps" "p \<in> set ps" "lo + 30000 \<le> q" by simp_all
    with Cons.IH [of q] show ?thesis by simp
  qed
qed

lemma spaced_window:
  "spaced lo ps \<Longrightarrow> length (filter (\<lambda>p. w \<le> p \<and> p < w + 30000) ps) \<le> 1"
proof (induction ps arbitrary: lo)
  case Nil
  show ?case by simp
next
  case (Cons q ps)
  then have sp: "spaced q ps" by simp
  show ?case
  proof (cases "w \<le> q \<and> q < w + 30000")
    case True
    have "\<not> (w \<le> p \<and> p < w + 30000)" if "p \<in> set ps" for p
      using spaced_lower [OF sp that] True by simp
    then have "filter (\<lambda>p. w \<le> p \<and> p < w + 30000) ps = []"
      by (simp add: filter_empty_conv)
    with True show ?thesis by simp
  next
    case False
    with Cons.IH [OF sp] show ?thesis by auto
  qed
qed

text \<open>
  C8. A new client believes the endpoint reachable. A \<^verbatim>\<open>checkConnectionState\<close> call less
  than 30000 ms after the last probe returns the known state, changes nothing and issues
  no request. A call after that issues one probe and records its time; the state becomes
  reachable when the probe is answered with a status below 500, unreachable when it is
  answered with another status, rejects or times out. So over any sequence of calls two
  successive probes are at least 30000 ms apart, and no window of 30000 ms holds two.
\<close>

theorem C8_probe_cooldown:
  "connectionState (TendrlClient cfg)
   \<and> (t < lastConnectionCheck c + 30000
        \<longrightarrow> checkConnectionState c t fr = (c, connectionState c, []))
   \<and> (lastConnectionCheck c + 30000 \<le> t
        \<longrightarrow> checkConnectionState c t fr
            = (c\<lparr>lastConnectionCheck := t, connectionState := probe_ok fr\<rparr>,
               probe_ok fr, [HeadStatus]))
   \<and> (probe_ok fr \<longleftrightarrow> (\<exists>status body. fr = Response status body \<and> status < 500))
   \<and> spaced (lastConnectionCheck c) (probes c calls)
   \<and> length (filter (\<lambda>p. w \<le> p \<and> p < w + 30000) (probes c calls)) \<le> 1"
proof -
  have "probe_ok fr \<longleftrightarrow> (\<exists>status body. fr = Response status body \<and> status < 500)"
    by (cases fr) (simp_all add: probe_ok_def)
  then show ?thesis
    using probes_spaced [of c calls] spaced_window [OF probes_spaced, of w c calls]
    by (simp add: checkConnectionState_cases TendrlClient_def)
qed

theorem C8_probe_cooldown_witness:
  "checkConnectionState (TendrlClient defaults) 29999 NetworkError
     = (TendrlClient defaults, True, [])
   \<and> checkConnectionState (TendrlClient defaults) 1700000000000 AbortError
     = ((TendrlClient defaults)\<lparr>lastConnectionCheck := 1700000000000, connectionState := False\<rparr>,
        False, [HeadStatus])
   \<and> probes (TendrlClient defaults) sample_checks = [1700000000000, 1700000030000, 1700000060000]
   \<and> length (filter (\<lambda>p. 1700000000001 \<le> p \<and> p < 1700000000001 + 30000)
                (probes (TendrlClient defaults) sample_checks)) \<le> 1"
proof -
  have l: "lastConnectionCheck (TendrlClient defaults) = 0" "connectionState (TendrlClient defaults)"
    by (simp_all add: TendrlClient_def)
  have p: "probes (TendrlClient defaults) sample_checks = [1700000000000, 1700000030000, 1700000060000]"
    by (simp add: sample_checks_def checkConnectionState_cases l)
  from C8_probe_cooldown [where c = "TendrlClient defaults" and t = 29999 and fr = NetworkError] l
  have 1: "checkConnectionState (TendrlClient defaults) 29999 NetworkError
     = (TendrlClient defaults, True, [])" by simp
  from C8_probe_cooldown [where c = "TendrlClient defaults" and t = 1700000000000 and fr = AbortError
         and calls = sample_checks and w = 1700000000001] l
  have 2: "checkConnectionState (TendrlClient defaults) 1700000000000 AbortError
     = ((TendrlClient defaults)\<lparr>lastConnectionCheck := 1700000000000, connectionState := False\<rparr>,
        False, [HeadStatus])"
    and 3: "length (filter (\<lambda>p. 1700000000001 \<le> p \<and> p < 1700000000001 + 30000)
                (probes (TendrlClient defaults) sample_checks)) \<le> 1"
    by (simp_all add: probe_ok_def)
  from 1 2 3 p show ?thesis by simp
qed

section \<open>Polling and the connection state\<close>

text \<open>
  C9, as stated, fails: a poll answered 204 (no content) returns before the connection
  state is touched, so a client that believes the endpoint unreachable still does after it.
\<close>

theorem C9_no_content_keeps_unreachable_counterexample:
  "\<not> connectionState down_client
   \<and> checkMessagesAPI down_client 1 1700000000000 (Response 204 (Malformed []))
       = (down_client, [GetCheckMessages 1])
   \<and> \<not> connectionState (fst (checkMessagesAPI down_client 1 1700000000000 (Response 204 (Malformed []))))"
  by (simp add: checkMessagesAPI_def down_client_def TendrlClient_def)

text \<open>
  C9 (amended). A poll answered with a status other than 200 (204 no content, or an error
  status) leaves the client, and so the connection state, as it was. A poll answered 200
  with a body that can be read (an empty message list included) sets the state reachable
  and records the time. A poll whose fetch rejects or times out, or whose 200 body cannot
  be read, sets the state unreachable.
\<close>

theorem C9_poll_outcomes:
  "(status \<noteq> 200
      \<longrightarrow> checkMessagesAPI c limit now (Response status body) = (c, [GetCheckMessages limit]))
   \<and> (JSON_parse body = Some responseData \<and> responseData \<noteq> JNull
      \<longrightarrow> checkMessagesAPI c limit now (Response 200 body)
          = (c\<lparr>lastMsgCheck := now, connectionState := True\<rparr>, [GetCheckMessages limit]))
   \<and> (fr = NetworkError \<or> fr = AbortError
        \<or> (\<exists>b. fr = Response 200 b \<and> (JSON_parse b = None \<or> JSON_parse b = Some JNull))
      \<longrightarrow> checkMessagesAPI c limit now fr
          = (c\<lparr>connectionState := False\<rparr>, [GetCheckMessages limit]))"
  by (cases responseData) (auto simp: checkMessagesAPI_def split: option.splits json.splits)

theorem C9_poll_outcomes_witness:
  "checkMessagesAPI (TendrlClient defaults) 1 1700000000000 (Response 500 (Malformed []))
     = (TendrlClient defaults, [GetCheckMessages 1])
   \<and> checkMessagesAPI down_client 1 1700000000000
        (Response 200 (Stringified (JObj [(''messages'', JArr [])])))
     = (down_client\<lparr>lastMsgCheck := 1700000000000, connectionState := True\<rparr>, [GetCheckMessages 1])
   \<and> checkMessagesAPI (TendrlClient defaults) 1 1700000000000 AbortError
     = ((TendrlClient defaults)\<lparr>connectionState := False\<rparr>, [GetCheckMessages 1])"
  using C9_poll_outcomes [where status = 500 and c = "TendrlClient defaults" and limit = 1
          and now = 1700000000000 and body = "Malformed []" and fr = AbortError]
        C9_poll_outcomes [where status = 500 and c = down_client and limit = 1
          and now = 1700000000000 and body = "Stringified (JObj [(''messages'', JArr [])])"
          and responseData = "JObj [(''messages'', JArr [])]" and fr = AbortError]
  by simp

section \<open>Spill and replay of a message\<close>

lemma storeOffline_spilled:
  "storeOffline st e m =
     (if se_ok e then filter (\<lambda>r. stored_id r \<noteq> stored_id (spilled e m)) st @ [spilled e m]
      else st)"
  by (simp add: storeOffline_def storage_store_def spilled_def stored_record_def Let_def)

lemma storeOffline_set: "set (storeOffline st e m) \<subseteq> insert (spilled e m) (set st)"
  by (auto simp: storeOffline_spilled)

lemma storeLoop_set:
  "r \<in> set (storeLoop st env i ms) \<Longrightarrow> r \<in> set st \<or> (\<exists>j m. m \<in> set ms \<and> r = spilled (env j) m)"
proof (induction ms arbitrary: st i)
  case Nil
  then show ?case by simp
next
  case (Cons m ms)
  from Cons.IH [of "storeOffline st (env i) m" "Suc i"] Cons.prems
  have "r \<in> set (storeOffline st (env i) m) \<or> (\<exists>j m'. m' \<in> set ms \<and> r = spilled (env j) m')"
    by simp
  then show ?case using storeOffline_set [of st "env i" m] by auto
qed

lemma parse_spilled:
  assumes "context_tags m \<noteq> Some []"
  shows "parseStored now (spilled e m) = Some (replayed now m)"
  using assms
  by (cases "context_tags m")
     (simp_all add: parseStored_def spilled_def stored_record_def JSON_stringify_def replayed_def)

lemma createMessage_tags:
  "createMessage msg tgs entity w t = Inr m \<Longrightarrow> context_tags m \<noteq> Some []"
  by (auto simp: createMessage_def context_tags_def split: if_splits)

lemma tickSend_spill:
  assumes "storage c = Some st" "fst (getBatch c) \<noteq> []"
    and "\<not> connectionState c \<or> \<not> fst (publishMessages (fst (getBatch c)) (te_send e))"
  shows "storage (fst (tickSend c e)) = Some (storeLoop st (te_store e) 0 (fst (getBatch c)))"
proof -
  obtain batch cq where gb: "getBatch c = (batch, cq)" by (cases "getBatch c")
  have k: "storage cq = Some st" "connectionState cq = connectionState c" "queue c \<noteq> []"
    using gb assms(1,2) by (auto simp: getBatch_def Let_def)
  show ?thesis
    using assms gb k
    by (auto simp: tickSend_def storeBatchOffline_def split: prod.splits)
qed

lemma spilled_id [simp]: "stored_id (spilled e m) = spill_key e"
  by (simp add: spilled_def stored_record_def spill_key_def)

lemma storeOffline_keeps:
  "r \<in> set st \<Longrightarrow> (se_ok e \<longrightarrow> stored_id r \<noteq> spill_key e) \<Longrightarrow> r \<in> set (storeOffline st e m)"
  by (simp add: storeOffline_spilled)

lemma storeOffline_written: "se_ok e \<Longrightarrow> spilled e m \<in> set (storeOffline st e m)"
  by (simp add: storeOffline_spilled)

lemma storeLoop_keeps:
  "r \<in> set st
   \<Longrightarrow> (\<forall>j. j < length ms \<and> se_ok (env (i + j)) \<longrightarrow> spill_key (env (i + j)) \<noteq> stored_id r)
   \<Longrightarrow> r \<in> set (storeLoop st env i ms)"
proof (induction ms arbitrary: st i)
  case Nil
  then show ?case by simp
next
  case (Cons m ms)
  have "se_ok (env i) \<longrightarrow> stored_id r \<noteq> spill_key (env i)"
    using Cons.prems(2) [rule_format, of 0] by auto
  then have 1: "r \<in> set (storeOffline st (env i) m)"
    using Cons.prems(1) by (rule storeOffline_keeps [rotated])
  have 2: "\<forall>j. j < length ms \<and> se_ok (env (Suc i + j)) \<longrightarrow> spill_key (env (Suc i + j)) \<noteq> stored_id r"
    using Cons.prems(2) by (auto dest: spec [of _ "Suc _"])
  from Cons.IH [OF 1 2] show ?case by simp
qed

lemma storeLoop_written:
  "k < length ms \<Longrightarrow> se_ok (env (i + k))
   \<Longrightarrow> (\<forall>j. k < j \<and> j < length ms \<and> se_ok (env (i + j))
            \<longrightarrow> spill_key (env (i + j)) \<noteq> spill_key (env (i + k)))
   \<Longrightarrow> spilled (env (i + k)) (ms ! k) \<in> set (storeLoop st env i ms)"
proof (induction ms arbitrary: st i k)
  case Nil
  then show ?case by simp
next
  case (Cons m ms)
  show ?case
  proof (cases k)
    case 0
    have w: "spilled (env i) m \<in> set (storeOffline st (env i) m)"
      using Cons.prems(2) 0 by (simp add: storeOffline_written)
    have "\<forall>j. j < length ms \<and> se_ok (env (Suc i + j))
            \<longrightarrow> spill_key (env (Suc i + j)) \<noteq> stored_id (spilled (env i) m)"
    proof (intro allI impI)
      fix j assume "j < length ms \<and> se_ok (env (Suc i + j))"
      then show "spill_key (env (Suc i + j)) \<noteq> stored_id (spilled (env i) m)"
        using Cons.prems(3) [rule_format, of "Suc j"] 0 by simp
    qed
    from storeLoop_keeps [OF w this] 0 show ?thesis by simp
  next
    case (Suc k')
    have 1: "k' < length ms" using Cons.prems(1) Suc by simp
    have 2: "se_ok (env (Suc i + k'))" using Cons.prems(2) Suc by simp
    have 3: "\<forall>j. k' < j \<and> j < length ms \<and> se_ok (env (Suc i + j))
            \<longrightarrow> spill_key (env (Suc i + j)) \<noteq> spill_key (env (Suc i + k'))"
    proof (intro allI impI)
      fix j assume "k' < j \<and> j < length ms \<and> se_ok (env (Suc i + j))"
      then show "spill_key (env (Suc i + j)) \<noteq> spill_key (env (Suc i + k'))"
        using Cons.prems(3) [rule_format, of "Suc j"] Suc by simp
    qed
    from Cons.IH [OF 1 2 3, of "storeOffline st (env i) m"] Suc show ?thesis by simp
  qed
qed



lemma spilled_expires [simp]: "expires_at (spilled e m) = se_now e + 3600000"
  by (simp add: spilled_def stored_record_def)

lemma quiet_store [simp]:
  "se_ok (te_store quiet_tick i)"
  "se_now (te_store quiet_tick i) = 1000 + i"
  "spill_key (te_store quiet_tick i) = OfflineId (1000 + i) ''k3j9x0q1z''"
  by (simp_all add: quiet_tick_def spill_key_def)

lemma sample_spill:
  "storeLoop [] (te_store quiet_tick) 0 (map sample_message [0, 1, 2, 3]) = spilled_samples"
proof -
  have [simp]: "Suc (Suc 0) = 2" "Suc (Suc (Suc 0)) = 3" by simp_all
  show ?thesis by (simp add: spilled_samples_def storeOffline_spilled)
qed

lemma sample_tags [simp]: "context_tags (sample_message i) = None"
  by (simp add: context_tags_def sample_message_def)

lemma sample_spill_replay:
  "replayLoop (replay_all (Response 201 (Stringified JNull))) 0 0 4 spilled_samples
     = ([], [PostMessages (map (\<lambda>i. replayed 50000 (sample_message i)) [0, 1, 2, 3])])"
proof -
  have page: "getAllMessages spilled_samples 50000 50 = spilled_samples"
    by (simp add: getAllMessages_def spilled_samples_def)
  have conv: "convertStored 50000 spilled_samples
     = (map (\<lambda>i. replayed 50000 (sample_message i)) [0, 1, 2, 3], map stored_id spilled_samples)"
    by (simp add: spilled_samples_def parse_spilled)
  have del: "deleteMessages spilled_samples (map stored_id spilled_samples) = []"
    by (simp add: deleteMessages_def spilled_samples_def)
  have ne: "spilled_samples \<noteq> []" by (simp add: spilled_samples_def)
  have "replayPage spilled_samples (replay_all (Response 201 (Stringified JNull)) 0)
     = ([], [PostMessages (map (\<lambda>i. replayed 50000 (sample_message i)) [0, 1, 2, 3])], Some 4)"
    using page conv del ne
    by (simp add: replayPage_def replay_all_def publishMessages_def Let_def)
  then show ?thesis by (simp add: replayLoop_turn replayLoop_done)
qed

text \<open>
  C10. A spill (a \<^verbatim>\<open>publish\<close> on a full queue, or the sender tick when the send fails or
  there is no connection) writes for each message one record, built from the message's
  data and \<^verbatim>\<open>context.tags\<close> alone: messages that agree on these two give the same record,
  whatever their timestamp, \<^verbatim>\<open>dest\<close> and \<^verbatim>\<open>wait\<close>. After the spill of a batch the store holds
  the record of every message whose write succeeded and whose key no later write of the
  batch took, and no record besides these and the ones it held. The replay turns the record
  of a message built by \<^verbatim>\<open>publish\<close> into a message of type \<^verbatim>\<open>"publish"\<close> with the timestamp
  of the replay, no \<^verbatim>\<open>dest\<close>, no \<^verbatim>\<open>wait\<close>, and the data and tags of the original. (Data
  and tags are JSON values, which \<^verbatim>\<open>JSON.parse\<close> gives back from their \<^verbatim>\<open>JSON.stringify\<close>
  text; the embedding takes this from the runtime.)
\<close>

theorem C10_spill_keeps_data_and_tags_only:
  "storeOffline st e m =
     (if se_ok e then filter (\<lambda>r. stored_id r \<noteq> stored_id (spilled e m)) st @ [spilled e m]
      else st)
   \<and> stored_data (spilled e m) = JSON_stringify (data m)
   \<and> stored_tags (spilled e m) = map_option JSON_stringify (context_tags m)
   \<and> (data m' = data m \<and> context_tags m' = context_tags m \<longrightarrow> spilled e m' = spilled e m)
   \<and> (createMessage msg tgs entity w t = Inr m \<longrightarrow> context_tags m \<noteq> Some [])
   \<and> (context_tags m \<noteq> Some []
        \<longrightarrow> parseStored now (spilled e m) = Some (replayed now m)
            \<and> msg_type (replayed now m) = ''publish''
            \<and> timestamp (replayed now m) = ISOString now
            \<and> dest (replayed now m) = None
            \<and> (\<forall>cx. msg_context (replayed now m) = Some cx \<longrightarrow> wait cx = None)
            \<and> data (replayed now m) = data m
            \<and> context_tags (replayed now m) = context_tags m)
   \<and> fst (convertStored now page) = List.map_filter (parseStored now) page
   \<and> (maxQueueSize c \<le> of_nat (length (queue c)) \<and> storage c = Some st
        \<and> createMessage msg tgs entity False (pe_now pe) = Inr m
        \<longrightarrow> publish c msg tgs entity False pe
            = Inr (c\<lparr>storage := Some (storeOffline st (pe_store pe) m)\<rparr>, ReturnsUndefined, []))
   \<and> (storage c = Some st \<and> fst (getBatch c) \<noteq> []
        \<and> (\<not> connectionState c \<or> \<not> fst (publishMessages (fst (getBatch c)) (te_send te)))
        \<longrightarrow> storage (fst (tickSend c te)) = Some (storeLoop st (te_store te) 0 (fst (getBatch c))))
   \<and> (k < length batch \<and> se_ok (env (i + k))
        \<and> (\<forall>j. k < j \<and> j < length batch \<and> se_ok (env (i + j))
               \<longrightarrow> spill_key (env (i + j)) \<noteq> spill_key (env (i + k)))
        \<longrightarrow> spilled (env (i + k)) (batch ! k) \<in> set (storeLoop st env i batch))
   \<and> (\<forall>r \<in> set (storeLoop st env i batch).
         r \<in> set st \<or> (\<exists>j b. b \<in> set batch \<and> r = spilled (env j) b))"
proof (intro conjI impI ballI)
  show "storeOffline st e m =
     (if se_ok e then filter (\<lambda>r. stored_id r \<noteq> stored_id (spilled e m)) st @ [spilled e m]
      else st)" by (rule storeOffline_spilled)
  show "stored_data (spilled e m) = JSON_stringify (data m)"
    by (simp add: spilled_def stored_record_def)
  show "stored_tags (spilled e m) = map_option JSON_stringify (context_tags m)"
    by (simp add: spilled_def stored_record_def split: option.splits)
  show "fst (convertStored now page) = List.map_filter (parseStored now) page"
    by (rule convertStored_messages)
next
  assume "data m' = data m \<and> context_tags m' = context_tags m"
  then show "spilled e m' = spilled e m" by (simp add: spilled_def)
next
  assume "createMessage msg tgs entity w t = Inr m"
  then show "context_tags m \<noteq> Some []" by (rule createMessage_tags)
next
  assume t: "context_tags m \<noteq> Some []"
  show "parseStored now (spilled e m) = Some (replayed now m)" by (rule parse_spilled [OF t])
  show "msg_type (replayed now m) = ''publish''" by (simp add: replayed_def)
  show "timestamp (replayed now m) = ISOString now" by (simp add: replayed_def)
  show "dest (replayed now m) = None" by (simp add: replayed_def)
  show "\<forall>cx. msg_context (replayed now m) = Some cx \<longrightarrow> wait cx = None"
    by (auto simp: replayed_def split: option.splits)
  show "data (replayed now m) = data m" by (simp add: replayed_def)
  show "context_tags (replayed now m) = context_tags m"
    by (cases "context_tags m") (simp_all add: replayed_def context_tags_def)
next
  assume "maxQueueSize c \<le> of_nat (length (queue c)) \<and> storage c = Some st
        \<and> createMessage msg tgs entity False (pe_now pe) = Inr m"
  then show "publish c msg tgs entity False pe
            = Inr (c\<lparr>storage := Some (storeOffline st (pe_store pe) m)\<rparr>, ReturnsUndefined, [])"
    by (simp add: publish_def)
next
  assume "storage c = Some st \<and> fst (getBatch c) \<noteq> []
        \<and> (\<not> connectionState c \<or> \<not> fst (publishMessages (fst (getBatch c)) (te_send te)))"
  then show "storage (fst (tickSend c te)) = Some (storeLoop st (te_store te) 0 (fst (getBatch c)))"
    using tickSend_spill [of c st te] by blast
next
  assume "k < length batch \<and> se_ok (env (i + k))
        \<and> (\<forall>j. k < j \<and> j < length batch \<and> se_ok (env (i + j))
               \<longrightarrow> spill_key (env (i + j)) \<noteq> spill_key (env (i + k)))"
  then show "spilled (env (i + k)) (batch ! k) \<in> set (storeLoop st env i batch)"
    using storeLoop_written [of k batch env i st] by blast
next
  fix r assume "r \<in> set (storeLoop st env i batch)"
  then show "r \<in> set st \<or> (\<exists>j b. b \<in> set batch \<and> r = spilled (env j) b)"
    by (rule storeLoop_set)
qed

lemma tagged_message_created:
  "createMessage (VObject [(''x'', JNum 1)]) [''t''] ''dev'' False (pe_now (at_time 1))
     = Inr tagged_message"
  by (simp add: createMessage_def tagged_message_def at_time_def)

lemma sample_tick:
  "fst (tickSend full_offline_client quiet_tick)
     = full_offline_client\<lparr>queue := [], storage := Some spilled_samples\<rparr>"
proof -
  have "storeLoop [] (te_store quiet_tick) 0
          [sample_message 0, sample_message (Suc 0), sample_message 2, sample_message 3]
        = spilled_samples"
    using sample_spill by simp
  then show ?thesis
    by (simp add: tickSend_def getBatch_def storeBatchOffline_def full_offline_client_def
          small_client_def TendrlClient_def defaults_def Let_def)
qed

theorem C10_spill_keeps_data_and_tags_only_witness:
  "parseStored 50000 (spilled (pe_store (at_time 1)) tagged_message)
     = Some \<lparr> msg_type = ''publish'', data = JObj [(''x'', JNum 1)], timestamp = ISOString 50000,
              msg_context = Some \<lparr> tags = Some [''t''], wait = None \<rparr>, dest = None \<rparr>
   \<and> publish full_offline_client (VObject [(''x'', JNum 1)]) [''t''] ''dev'' False (at_time 1)
       = Inr (full_offline_client\<lparr>storage := Some [spilled (pe_store (at_time 1)) tagged_message]\<rparr>,
              ReturnsUndefined, [])
   \<and> storage (fst (tickSend full_offline_client quiet_tick)) = Some spilled_samples
   \<and> spilled (te_store quiet_tick 2) (sample_message 2) \<in> set spilled_samples
   \<and> spilled (te_store quiet_tick 2) (sample_message 2)
       = \<lparr> stored_id = OfflineId 1002 ''k3j9x0q1z'',
           stored_data = Stringified (JObj [(''n'', JNum 2)]),
           stored_tags = None, expires_at = 3601002 \<rparr>
   \<and> processOfflineMessages (fst (tickSend full_offline_client quiet_tick)) 50000 True
        (replay_all (Response 201 (Stringified JNull)))
       = (full_offline_client\<lparr>queue := [], storage := Some []\<rparr>,
          [PostMessages (map (\<lambda>i. (sample_message i)\<lparr>timestamp := ISOString 50000\<rparr>) [0, 1, 2, 3])])
   \<and> spilled (pe_store (at_time 1)) (tagged_message\<lparr>timestamp := ISOString 7, dest := None\<rparr>)
       = spilled (pe_store (at_time 1)) tagged_message"
proof -
  let ?e = "pe_store (at_time 1)"
  note inst = C10_spill_keeps_data_and_tags_only
    [where m = tagged_message and e = ?e and st = "[]" and now = 50000
       and m' = "tagged_message\<lparr>timestamp := ISOString 7, dest := None\<rparr>"
       and msg = "VObject [(''x'', JNum 1)]" and tgs = "[''t'']" and entity = "''dev''"
       and w = False and t = "pe_now (at_time 1)" and pe = "at_time 1"
       and c = full_offline_client and te = quiet_tick
       and k = 2 and i = 0 and env = "te_store quiet_tick"
       and batch = "map sample_message [0, 1, 2, 3]"]
  have ok: "se_ok ?e" by (simp add: at_time_def)
  have tg: "context_tags tagged_message \<noteq> Some []"
    using inst tagged_message_created by blast
  have same: "data (tagged_message\<lparr>timestamp := ISOString 7, dest := None\<rparr>) = data tagged_message
     \<and> context_tags (tagged_message\<lparr>timestamp := ISOString 7, dest := None\<rparr>)
         = context_tags tagged_message"
    by (simp add: context_tags_def)
  have full: "maxQueueSize full_offline_client \<le> of_nat (length (queue full_offline_client))
     \<and> storage full_offline_client = Some []"
    by (simp add: full_offline_client_def sample_defs)
  have gb: "fst (getBatch full_offline_client) = map sample_message [0, 1, 2, 3]"
    by (simp add: full_offline_client_def sample_defs getBatch_def Let_def)
  have down: "\<not> connectionState full_offline_client" by (simp add: full_offline_client_def)
  from inst tg have 1: "parseStored 50000 (spilled ?e tagged_message)
     = Some \<lparr> msg_type = ''publish'', data = JObj [(''x'', JNum 1)], timestamp = ISOString 50000,
              msg_context = Some \<lparr> tags = Some [''t''], wait = None \<rparr>, dest = None \<rparr>"
    by (simp add: replayed_def tagged_message_def context_tags_def)
  from inst ok have so: "storeOffline [] ?e tagged_message = [spilled ?e tagged_message]" by simp
  from inst full tagged_message_created so
  have 2: "publish full_offline_client (VObject [(''x'', JNum 1)]) [''t''] ''dev'' False (at_time 1)
       = Inr (full_offline_client\<lparr>storage := Some [spilled ?e tagged_message]\<rparr>,
              ReturnsUndefined, [])"
    by simp
  from inst full gb down
  have "storage (fst (tickSend full_offline_client quiet_tick))
       = Some (storeLoop [] (te_store quiet_tick) 0 (map sample_message [0, 1, 2, 3]))"
    by simp
  then have 3: "storage (fst (tickSend full_offline_client quiet_tick)) = Some spilled_samples"
    by (simp only: sample_spill)
  have keys: "2 < length (map sample_message [0, 1, 2, 3]) \<and> se_ok (te_store quiet_tick (0 + 2))
        \<and> (\<forall>j. 2 < j \<and> j < length (map sample_message [0, 1, 2, 3])
                 \<and> se_ok (te_store quiet_tick (0 + j))
               \<longrightarrow> spill_key (te_store quiet_tick (0 + j)) \<noteq> spill_key (te_store quiet_tick (0 + 2)))"
    by simp
  from inst keys
  have "spilled (te_store quiet_tick (0 + 2)) (map sample_message [0, 1, 2, 3] ! 2)
          \<in> set (storeLoop [] (te_store quiet_tick) 0 (map sample_message [0, 1, 2, 3]))"
    by blast
  then have "spilled (te_store quiet_tick (0 + 2)) (map sample_message [0, 1, 2, 3] ! 2)
          \<in> set spilled_samples"
    by (simp only: sample_spill)
  then have 4: "spilled (te_store quiet_tick 2) (sample_message 2) \<in> set spilled_samples"
    by (simp add: numeral_2_eq_2 [symmetric])
  have 5: "spilled (te_store quiet_tick 2) (sample_message 2)
       = \<lparr> stored_id = OfflineId 1002 ''k3j9x0q1z'',
           stored_data = Stringified (JObj [(''n'', JNum 2)]),
           stored_tags = None, expires_at = 3601002 \<rparr>"
    by (simp add: spilled_def stored_record_def JSON_stringify_def quiet_tick_def
          sample_message_def context_tags_def)
  have r: "replayed 50000 (sample_message i) = (sample_message i)\<lparr>timestamp := ISOString 50000\<rparr>" for i
    by (simp add: replayed_def sample_message_def context_tags_def)
  have c4: "getMessageCount spilled_samples 50000 = 4"
    by (simp add: getMessageCount_def spilled_samples_def)
  have 6: "processOfflineMessages (fst (tickSend full_offline_client quiet_tick)) 50000 True
        (replay_all (Response 201 (Stringified JNull)))
       = (full_offline_client\<lparr>queue := [], storage := Some []\<rparr>,
          [PostMessages (map (\<lambda>i. (sample_message i)\<lparr>timestamp := ISOString 50000\<rparr>) [0, 1, 2, 3])])"
    by (simp add: sample_tick processOfflineMessages_storage [of _ spilled_samples] c4
          sample_spill_replay r)
  from inst same
  have 7: "spilled ?e (tagged_message\<lparr>timestamp := ISOString 7, dest := None\<rparr>)
       = spilled ?e tagged_message" by blast
  from 1 2 3 4 5 6 7 show ?thesis by simp
qed

end
